theory Spec2Isabelle
  imports Main
begin

text \<open>
  A model of the marketing analytics team: a workflow graph in which an Orchestrator
  (\<open>supervisor_node\<close>) routes one user request through the query pipeline
  (\<open>sql_agent_node\<close>) and the Analytics, Segment, Catalog and Content responders, all of
  them reading and writing one shared state. The language model, the data store and the
  table library are parameters of the model, the functions of the program are translated
  one by one, and the properties of the specification are settled at the end.
\<close>

section \<open>Python string primitives\<close>

text \<open>
  Strings are lists of 8-bit characters: a text of the program is the list of the bytes
  of its UTF-8 encoding. The keyword lists, the SQL patterns and the table name that the
  program searches for are ASCII, and in UTF-8 the byte of an ASCII character stands for
  that character only, so that \<open>py_in\<close>, \<open>py_count\<close> and \<open>startswith\<close> are \<open>in\<close>,
  \<open>str.count\<close> and \<open>str.startswith\<close> on every text. The other primitives are those of
  the library on texts of ASCII characters (\<open>ascii\<close>), and the model is the program on
  such texts. Outside ASCII the library does more: \<open>str.lower\<close> and \<open>str.upper\<close> map
  some letters beyond 0x7F to ASCII letters (the Kelvin sign to \<open>k\<close>, the dotless i to
  \<open>I\<close>, the long s to \<open>S\<close>), while \<open>py_lower\<close> and \<open>py_upper\<close> leave every byte above
  0x7F unchanged; \<open>str.strip\<close> and the pattern \<open>\s\<close> take further Unicode characters for
  white space; a pattern that ignores case matches such letters as well; and \<open>len\<close> counts
  characters where \<open>length\<close> counts the bytes of their encoding.
\<close>

definition ascii :: "string \<Rightarrow> bool" where
  "ascii s = list_all (\<lambda>c. (of_char c :: nat) < 128) s"

definition upper_letters :: string where
  "upper_letters = ''ABCDEFGHIJKLMNOPQRSTUVWXYZ''"

definition lower_letters :: string where
  "lower_letters = ''abcdefghijklmnopqrstuvwxyz''"

definition py_lower_char :: "char \<Rightarrow> char" where
  "py_lower_char c =
     (case map_of (zip upper_letters lower_letters) c of None \<Rightarrow> c | Some d \<Rightarrow> d)"

definition py_upper_char :: "char \<Rightarrow> char" where
  "py_upper_char c =
     (case map_of (zip lower_letters upper_letters) c of None \<Rightarrow> c | Some d \<Rightarrow> d)"

definition py_lower :: "string \<Rightarrow> string" where
  "py_lower s = map py_lower_char s"

definition py_upper :: "string \<Rightarrow> string" where
  "py_upper s = map py_upper_char s"

text \<open>\<open>s.startswith(p)\<close>\<close>

fun startswith :: "string \<Rightarrow> string \<Rightarrow> bool" where
  "startswith s [] = True"
| "startswith [] (p # ps) = False"
| "startswith (c # cs) (p # ps) = (c = p \<and> startswith cs ps)"

text \<open>\<open>p in s\<close>: the left-to-right search for an occurrence of \<open>p\<close>.\<close>

fun py_in :: "string \<Rightarrow> string \<Rightarrow> bool" where
  "py_in p [] = (p = [])"
| "py_in p (c # cs) = (startswith (c # cs) p \<or> py_in p cs)"

text \<open>
  \<open>s.count(p)\<close>: occurrences are counted from the left and do not overlap; the empty
  pattern occurs between all characters.
\<close>

fun py_count :: "string \<Rightarrow> string \<Rightarrow> nat" where
  "py_count [] p = (if p = [] then 1 else 0)"
| "py_count (c # cs) p =
     (if p = [] then Suc (py_count cs p)
      else if startswith (c # cs) p then Suc (py_count (drop (length p) (c # cs)) p)
      else py_count cs p)"

text \<open>
  The ASCII characters that \<open>str.strip()\<close> and the pattern \<open>\s\<close> take for white
  space.
\<close>

definition py_isspace :: "char \<Rightarrow> bool" where
  "py_isspace c =
     (let n = (of_char c :: nat) in (9 \<le> n \<and> n \<le> 13) \<or> (28 \<le> n \<and> n \<le> 32))"

definition py_strip :: "string \<Rightarrow> string" where
  "py_strip s = rev (dropWhile py_isspace (rev (dropWhile py_isspace s)))"

text \<open>\<open>s.replace(old, new)\<close>\<close>

fun py_replace :: "string \<Rightarrow> string \<Rightarrow> string \<Rightarrow> string" where
  "py_replace [] old new = (if old = [] then new else [])"
| "py_replace (c # cs) old new =
     (if old = [] then new @ c # py_replace cs old new
      else if startswith (c # cs) old then new @ py_replace (drop (length old) (c # cs)) old new
      else c # py_replace cs old new)"

text \<open>\<open>sep.join(xs)\<close>\<close>

fun py_join :: "string \<Rightarrow> string list \<Rightarrow> string" where
  "py_join sep [] = []"
| "py_join sep [x] = x"
| "py_join sep (x # y # ys) = x @ sep @ py_join sep (y # ys)"

text \<open>\<open>any(kw in s for kw in kws)\<close>\<close>

definition any_in :: "string list \<Rightarrow> string \<Rightarrow> bool" where
  "any_in kws s = list_ex (\<lambda>kw. py_in kw s) kws"

text \<open>Truth value of an \<open>Optional[str]\<close>: \<open>None\<close> and the empty string are false.\<close>

fun truthy :: "string option \<Rightarrow> bool" where
  "truthy None = False"
| "truthy (Some s) = (s \<noteq> [])"

text \<open>\<open>str(n)\<close> for a length.\<close>

function str_of_nat :: "nat \<Rightarrow> string" where
  "str_of_nat n =
     (if n < 10 then [''0123456789'' ! n]
      else str_of_nat (n div 10) @ [''0123456789'' ! (n mod 10)])"
  by pat_completeness auto
termination
  by (relation "measure id") auto

declare str_of_nat.simps [simp del]

section \<open>Shared session state\<close>

datatype msg = HumanMessage string | AIMessage string | SystemMessage string

text \<open>
  \<open>AgentState\<close>, with every key present as in the initial state that \<open>run_team_query\<close>
  builds.
\<close>

record AgentState =
  messages :: "msg list"
  next_agent :: "string option"
  leads_data :: "string option"
  product_info :: "string option"
  segment_analysis :: "string option"
  email_draft :: "string option"
  sql_plan :: "string option"
  sql_query :: "string option"
  sql_validation_error :: "string option"
  needs_visualization :: bool
  needs_clarification :: bool
  clarification_question :: "string option"
  clarification_options :: "string list option"
  user_clarification :: "string option"
  is_complete :: bool
  current_step :: int
  completed_agents :: "string list"

text \<open>
  The dict a node returns. A key that the dict does not hold is \<open>None\<close>; a key that
  holds Python's \<open>None\<close> is \<open>Some None\<close>. Every node returns the key \<open>messages\<close>.
\<close>

record update =
  u_messages :: "msg list"
  u_next_agent :: "string option option"
  u_leads_data :: "string option option"
  u_product_info :: "string option option"
  u_segment_analysis :: "string option option"
  u_email_draft :: "string option option"
  u_sql_plan :: "string option option"
  u_sql_query :: "string option option"
  u_sql_validation_error :: "string option option"
  u_needs_visualization :: "bool option"
  u_needs_clarification :: "bool option"
  u_clarification_question :: "string option option"
  u_clarification_options :: "string list option option"
  u_is_complete :: "bool option"
  u_current_step :: "int option"
  u_completed_agents :: "string list option"

definition no_update :: update where
  "no_update =
     \<lparr>u_messages = [], u_next_agent = None, u_leads_data = None, u_product_info = None,
      u_segment_analysis = None, u_email_draft = None, u_sql_plan = None, u_sql_query = None,
      u_sql_validation_error = None, u_needs_visualization = None,
      u_needs_clarification = None, u_clarification_question = None,
      u_clarification_options = None, u_is_complete = None, u_current_step = None,
      u_completed_agents = None\<rparr>"

definition put :: "'a option \<Rightarrow> 'a \<Rightarrow> 'a" where
  "put new old = (case new of None \<Rightarrow> old | Some v \<Rightarrow> v)"

text \<open>
  How the graph merges a node's dict into the state: \<open>messages\<close> has the reducer
  \<open>add_messages\<close>, which appends the new messages to the log; every other key that the
  dict holds overwrites the state's value.
\<close>

definition apply_update :: "AgentState \<Rightarrow> update \<Rightarrow> AgentState" where
  "apply_update s u =
     \<lparr>messages = messages s @ u_messages u,
      next_agent = put (u_next_agent u) (next_agent s),
      leads_data = put (u_leads_data u) (leads_data s),
      product_info = put (u_product_info u) (product_info s),
      segment_analysis = put (u_segment_analysis u) (segment_analysis s),
      email_draft = put (u_email_draft u) (email_draft s),
      sql_plan = put (u_sql_plan u) (sql_plan s),
      sql_query = put (u_sql_query u) (sql_query s),
      sql_validation_error = put (u_sql_validation_error u) (sql_validation_error s),
      needs_visualization = put (u_needs_visualization u) (needs_visualization s),
      needs_clarification = put (u_needs_clarification u) (needs_clarification s),
      clarification_question = put (u_clarification_question u) (clarification_question s),
      clarification_options = put (u_clarification_options u) (clarification_options s),
      user_clarification = user_clarification s,
      is_complete = put (u_is_complete u) (is_complete s),
      current_step = put (u_current_step u) (current_step s),
      completed_agents = put (u_completed_agents u) (completed_agents s)\<rparr>"

text \<open>The first user message of the log, or the empty string.\<close>

fun first_human :: "msg list \<Rightarrow> string" where
  "first_human [] = []"
| "first_human (HumanMessage c # ms) = c"
| "first_human (m # ms) = first_human ms"

section \<open>Orchestrator\<close>

definition dispatch :: "AgentState \<Rightarrow> string \<Rightarrow> update" where
  "dispatch s a =
     no_update\<lparr>u_next_agent := Some (Some a),
               u_current_step := Some (current_step s + 1),
               u_completed_agents := Some (completed_agents s @ [a])\<rparr>"

text \<open>The keyword classification of the request, in lower case.\<close>

definition needs_sql :: "string \<Rightarrow> bool" where
  "needs_sql request_lower =
     any_in [''top'', ''show'', ''list'', ''find'', ''get'', ''count'', ''how many'',
             ''customer''] request_lower"

definition needs_viz :: "string \<Rightarrow> bool" where
  "needs_viz request_lower =
     any_in [''chart'', ''pie'', ''bar'', ''graph'', ''plot'', ''distribution'', ''breakdown'',
             ''visualiz'', ''demographic'', ''characteristic'', ''analysis'', ''insight'']
       request_lower"

definition needs_email :: "string \<Rightarrow> bool" where
  "needs_email request_lower = py_in ''email'' request_lower"

definition needs_product :: "string \<Rightarrow> bool" where
  "needs_product request_lower = py_in ''learning labs'' request_lower"

definition needs_strategy :: "string \<Rightarrow> bool" where
  "needs_strategy request_lower =
     any_in [''strategy'', ''recommend'', ''approach'', ''how to'', ''marketing plan'',
             ''re-engage''] request_lower"

definition all_done :: "AgentState \<Rightarrow> update" where
  "all_done s =
     no_update\<lparr>u_next_agent := Some (Some ''COMPLETE''),
               u_current_step := Some (current_step s + 1),
               u_is_complete := Some True\<rparr>"

definition supervisor_node :: "AgentState \<Rightarrow> update" where
  "supervisor_node s =
     (let request_lower = py_lower (first_human (messages s));
          completed = set (completed_agents s)
      in if needs_sql request_lower \<and> ''SQL_AGENT'' \<notin> completed then
           (dispatch s ''SQL_AGENT'')\<lparr>u_needs_visualization := Some (needs_viz request_lower)\<rparr>
         else if needs_viz request_lower \<and> ''DATAVIZ_AGENT'' \<notin> completed
                 \<and> (truthy (leads_data s) \<or> \<not> needs_sql request_lower) then
           dispatch s ''DATAVIZ_AGENT''
         else if needs_product request_lower \<and> needs_email request_lower
                 \<and> ''PRODUCT_EXPERT'' \<notin> completed then
           dispatch s ''PRODUCT_EXPERT''
         else if needs_email request_lower \<and> ''EMAIL_WRITER'' \<notin> completed then
           dispatch s ''EMAIL_WRITER''
         else if needs_strategy request_lower \<and> ''SEGMENTATION_AGENT'' \<notin> completed then
           dispatch s ''SEGMENTATION_AGENT''
         else if needs_product request_lower \<and> \<not> needs_email request_lower
                 \<and> ''PRODUCT_EXPERT'' \<notin> completed then
           dispatch s ''PRODUCT_EXPERT''
         else if ''SQL_AGENT'' \<notin> completed then
           (dispatch s ''SQL_AGENT'')\<lparr>u_needs_visualization := Some (needs_viz request_lower)\<rparr>
         else all_done s)"

text \<open>The conditional edge out of the Orchestrator.\<close>

definition route_from_supervisor :: "AgentState \<Rightarrow> string" where
  "route_from_supervisor s =
     (if current_step s > 8 then ''__end__''
      else case next_agent s of
             None \<Rightarrow> ''__end__''
           | Some a \<Rightarrow>
               (case map_of [(''SQL_AGENT'', ''sql_agent''),
                             (''DATAVIZ_AGENT'', ''dataviz_agent''),
                             (''SEGMENTATION_AGENT'', ''segmentation_agent''),
                             (''PRODUCT_EXPERT'', ''product_expert''),
                             (''EMAIL_WRITER'', ''email_writer''),
                             (''COMPLETE'', ''__end__'')] a of
                  None \<Rightarrow> ''__end__''
                | Some n \<Rightarrow> n))"

text \<open>The conditional edge out of the query pipeline.\<close>

definition route_after_sql :: "AgentState \<Rightarrow> string" where
  "route_after_sql s =
     (if is_complete s \<or> \<not> truthy (leads_data s) then ''supervisor''
      else if needs_visualization s \<and> ''DATAVIZ_AGENT'' \<notin> set (completed_agents s)
        then ''dataviz_agent''
      else ''supervisor'')"

text \<open>The state in which \<open>run_team_query\<close> starts the graph.\<close>

definition initial_state :: "string \<Rightarrow> string option \<Rightarrow> AgentState" where
  "initial_state user_message clarification =
     \<lparr>messages = [HumanMessage user_message], next_agent = None, leads_data = None,
      product_info = None, segment_analysis = None, email_draft = None, sql_plan = None,
      sql_query = None, sql_validation_error = None, needs_visualization = False,
      needs_clarification = False, clarification_question = None,
      clarification_options = None, user_clarification = clarification,
      is_complete = False, current_step = 0, completed_agents = []\<rparr>"


section \<open>Structured query pipeline\<close>

subsection \<open>The outside world\<close>

text \<open>
  The language model and the data store are parameters. Calls are recorded, in order, in a
  log of events, together with the nodes that run and the dicts that the responders
  return; an answer may depend on the number of events before the call, so that the same
  prompt may be answered differently each time. A call that raises is \<open>None\<close>
  for the model and \<open>DbError\<close>, with the text of the exception, for the try block around
  the data store. What pandas and json compute from a table is a parameter as well.
\<close>

type_synonym row = "(string \<times> string) list"

datatype db_result = DbError string | DbRows "row list"

datatype event = LlmCall "msg list" | DbQuery string | NodeRun string | Returned string update

record env =
  llm :: "nat \<Rightarrow> msg list \<Rightarrow> string option"
  db :: "nat \<Rightarrow> string \<Rightarrow> db_result"
  to_markdown :: "row list \<Rightarrow> string"
  to_json :: "row list \<Rightarrow> string"
  frame_of_json :: "string \<Rightarrow> string + row list"
  frame_empty :: "row list \<Rightarrow> bool"
  viz_parts :: "row list \<Rightarrow> string \<Rightarrow> (string list \<times> string option) option"
  frame_columns :: "row list \<Rightarrow> string"
  frame_summary :: "row list \<Rightarrow> string option"
  leads_info_of :: "string \<Rightarrow> string option"
  segment_str :: string

subsection \<open>Schema, prompts and message texts\<close>

definition SCHEMA_columns :: "string list" where
  "SCHEMA_columns =
     [''customer_id'', ''Segment'', ''engagement_score'', ''TotalVisits'',
      ''Total_Time_Spent_on_Website'', ''Page_Views_Per_Visit'', ''Converted'',
      ''Lead_Source'', ''Lead_Origin'', ''Country'', ''City'',
      ''Specialization'', ''Occupation'', ''Last_Activity'']"

definition SCHEMA_segment_values :: "string list" where
  "SCHEMA_segment_values =
     [''Champions'', ''Highly Engaged'', ''Potential Loyalists'', ''At Risk'', ''Low Value'']"

text \<open>Characters outside ASCII are given by their UTF-8 bytes.\<close>

definition glyph_thinking :: string where
  "glyph_thinking = [CHR 0xEF, CHR 0xA3, CHR 0xBF, CHR 0xC3, CHR 0xBC, CHR 0xC2, CHR 0xA7, CHR 0xC3, CHR 0xAE]"

definition glyph_clipboard :: string where
  "glyph_clipboard = [CHR 0xEF, CHR 0xA3, CHR 0xBF, CHR 0xC3, CHR 0xBC, CHR 0xC3, CHR 0xAC, CHR 0xC3, CHR 0xA3]"

definition glyph_memo :: string where
  "glyph_memo = [CHR 0xEF, CHR 0xA3, CHR 0xBF, CHR 0xC3, CHR 0xBC, CHR 0xC3, CHR 0xAC, CHR 0xC3, CHR 0xB9]"

definition glyph_warning :: string where
  "glyph_warning = [CHR 0xE2, CHR 0x80, CHR 0x9A, CHR 0xC3, CHR 0xB6, CHR 0xE2, CHR 0x80, CHR 0xA0, CHR 0xC3, CHR 0x94, CHR 0xE2, CHR 0x88, CHR 0x8F, CHR 0xC3, CHR 0xA8]"

definition glyph_cross :: string where
  "glyph_cross = [CHR 0xE2, CHR 0x80, CHR 0x9A, CHR 0xC3, CHR 0xB9, CHR 0xC3, CHR 0xA5]"

definition glyph_check :: string where
  "glyph_check = [CHR 0xE2, CHR 0x80, CHR 0x9A, CHR 0xC3, CHR 0xBA, CHR 0xC3, CHR 0x96]"

definition PLAN_PROMPT :: "string \<Rightarrow> string \<Rightarrow> string \<Rightarrow> string" where
  "PLAN_PROMPT columns segments question =
     ''You are a SQL query planner for a CUSTOMER LEADS database.\<newline>'' @
     ''\<newline>'' @
     ''CRITICAL CONTEXT:\<newline>'' @
     ''- '' @ [CHR 0x22] @ ''Champions'' @ [CHR 0x22] @ '', '' @ [CHR 0x22] @
     ''Highly Engaged'' @ [CHR 0x22] @ '', '' @ [CHR 0x22] @ ''At Risk'' @ [CHR 0x22] @
     '' etc. are CUSTOMER SEGMENT names, NOT sports/games\<newline>'' @
     ''- This is a marketing database with lead/customer information\<newline>'' @
     ''- NEVER search the web - use only the database schema provided\<newline>'' @
     ''\<newline>'' @
     ''Database table: leadscored\<newline>'' @
     ''Columns: '' @ columns @ ''\<newline>'' @
     ''Segment values: '' @ segments @ ''\<newline>'' @
     ''\<newline>'' @
     ''RULES:\<newline>'' @
     ''- Plan for SIMPLE queries only (single SELECT, basic WHERE, GROUP BY, '' @
     ''ORDER BY)\<newline>'' @
     ''- NO CTEs, NO subqueries, NO complex joins\<newline>'' @
     ''- If request cannot be answered with this schema, say: CANNOT_ANSWER: '' @
     ''[reason]\<newline>'' @
     ''\<newline>'' @
     ''User request: '' @ question @ ''\<newline>'' @
     ''\<newline>'' @
     ''Respond with a brief SQL plan (2-3 sentences max):\<newline>''"

definition SQL_GENERATE_PROMPT :: "string \<Rightarrow> string \<Rightarrow> string" where
  "SQL_GENERATE_PROMPT plan columns =
     ''Generate a SIMPLE SQL query based on this plan.\<newline>'' @
     ''\<newline>'' @
     ''Plan: '' @ plan @ ''\<newline>'' @
     ''\<newline>'' @
     ''Table: leadscored\<newline>'' @
     ''Columns: '' @ columns @ ''\<newline>'' @
     ''\<newline>'' @
     ''RULES:\<newline>'' @
     ''- Single SELECT statement only\<newline>'' @
     ''- NO CTEs (WITH clauses) \<newline>'' @
     ''- NO subqueries\<newline>'' @
     ''- NO comments in SQL\<newline>'' @
     ''- Return ONLY the SQL query\<newline>'' @
     ''\<newline>'' @
     ''SQL:''"

definition msg_gaming_confusion :: "string" where
  "msg_gaming_confusion =
     ''[SQL Agent]\<newline>'' @
     glyph_thinking @ '' **Clarification Needed**\<newline>'' @
     ''\<newline>'' @
     ''I noticed you mentioned '' @ [CHR 0x27] @ ''Champions'' @ [CHR 0x27] @
     ''. In our database, this refers to a **customer segment**, not '' @
     ''gaming/sports.\<newline>'' @
     ''\<newline>'' @
     ''Did you mean:\<newline>'' @
     ''- **Option A:** Champions customer segment (high-value '' @
     ''customers)\<newline>'' @
     ''- **Option B:** Something else\<newline>'' @
     ''\<newline>'' @
     ''Please select an option or rephrase your question.''"

definition msg_web_search :: "string" where
  "msg_web_search =
     ''[SQL Agent]\<newline>'' @
     glyph_thinking @ '' **Clarification Needed**\<newline>'' @
     ''\<newline>'' @
     ''I was about to search the web, but I should only query our '' @
     ''database.\<newline>'' @
     ''\<newline>'' @
     ''Could you rephrase your question to ask about:\<newline>'' @
     ''- Customer segments (Champions, At Risk, etc.)\<newline>'' @
     ''- Lead sources, countries, occupations\<newline>'' @
     ''- Engagement scores, conversions\<newline>'' @
     ''\<newline>'' @
     ''What specific data would you like from our leads database?''"

definition msg_not_sql :: "string" where
  "msg_not_sql =
     ''[SQL Agent]\<newline>'' @
     glyph_thinking @ '' **Clarification Needed**\<newline>'' @
     ''\<newline>'' @
     ''I'' @ [CHR 0x27] @
     ''m not sure how to answer this with our database.\<newline>'' @
     ''\<newline>'' @
     ''Available data:\<newline>'' @
     ''- Customer segments: Champions, Highly Engaged, Potential Loyalists, At '' @
     ''Risk, Low Value\<newline>'' @
     ''- Columns: Country, City, Occupation, Lead_Source, engagement_score, '' @
     ''Converted\<newline>'' @
     ''\<newline>'' @
     ''Could you rephrase your question?''"

definition msg_invalid_sql :: "string" where
  "msg_invalid_sql =
     ''[SQL Agent]\<newline>'' @
     glyph_thinking @ '' **Clarification Needed**\<newline>'' @
     ''\<newline>'' @
     ''I couldn'' @ [CHR 0x27] @
     ''t generate a valid SQL query for your request.\<newline>'' @
     ''\<newline>'' @
     ''Please try asking about:\<newline>'' @
     ''- Segment counts or distributions\<newline>'' @
     ''- Top customers by engagement\<newline>'' @
     ''- Lead source breakdown\<newline>'' @
     ''- Country/city statistics''"

definition msg_cannot_answer :: "string \<Rightarrow> string" where
  "msg_cannot_answer plan =
     ''[SQL Agent]\<newline>'' @
     glyph_warning @ '' '' @ plan @ ''\<newline>'' @
     ''\<newline>'' @
     ''Available columns: '' @ py_join '', '' SCHEMA_columns"

definition msg_validation_failed :: "string \<Rightarrow> string \<Rightarrow> string" where
  "msg_validation_failed err q =
     ''[SQL Agent]\<newline>'' @
     glyph_cross @ '' **SQL Validation Failed:**\<newline>'' @
     err @ ''\<newline>'' @
     ''\<newline>'' @
     ''**Attempted SQL:**\<newline>'' @
     ''```sql\<newline>'' @
     q @ ''\<newline>'' @
     ''```\<newline>'' @
     ''\<newline>'' @
     ''Would you like to try a simpler query?''"

definition result_no_data :: "string \<Rightarrow> string \<Rightarrow> string" where
  "result_no_data plan q =
     ''**'' @ glyph_clipboard @ '' Plan:** '' @ plan @ ''\<newline>'' @
     ''\<newline>'' @
     ''**'' @ glyph_memo @ '' SQL:**\<newline>'' @
     ''```sql\<newline>'' @
     q @ ''\<newline>'' @
     ''```\<newline>'' @
     ''\<newline>'' @
     ''**Result:** No data found.''"

definition result_rows :: "string \<Rightarrow> string \<Rightarrow> nat \<Rightarrow> string \<Rightarrow> string" where
  "result_rows plan q n table =
     ''**'' @ glyph_clipboard @ '' Plan:** '' @ plan @ ''\<newline>'' @
     ''\<newline>'' @
     ''**'' @ glyph_memo @ '' SQL:**\<newline>'' @
     ''```sql\<newline>'' @
     q @ ''\<newline>'' @
     ''```\<newline>'' @
     ''\<newline>'' @
     ''**'' @ glyph_check @ '' Data Retrieved:** '' @ str_of_nat n @
     '' rows\<newline>'' @
     ''\<newline>'' @
     table"

definition msg_exec_error :: "string \<Rightarrow> string \<Rightarrow> string \<Rightarrow> string" where
  "msg_exec_error plan q err =
     ''[SQL Agent]\<newline>'' @
     ''**'' @ glyph_clipboard @ '' Plan:** '' @ plan @ ''\<newline>'' @
     ''\<newline>'' @
     ''**'' @ glyph_memo @ '' SQL:**\<newline>'' @
     ''```sql\<newline>'' @
     q @ ''\<newline>'' @
     ''```\<newline>'' @
     ''\<newline>'' @
     ''**'' @ glyph_cross @ '' Execution Error:** '' @ err @ ''\<newline>'' @
     ''\<newline>'' @
     ''Would you like to try a different query?''"

definition msg_result :: "string \<Rightarrow> string" where
  "msg_result result_text =
     ''[SQL Agent]\<newline>'' @
     result_text"

definition clarified :: "string \<Rightarrow> string \<Rightarrow> string" where
  "clarified user_question c =
     user_question @ '' (User clarified: '' @ c @ '')''"

subsection \<open>Response sanity check and validation\<close>

text \<open>
  \<open>detect_invalid_response\<close>, for a response of ASCII characters: \<open>length response\<close>
  is \<open>len(response)\<close> there.
\<close>

definition detect_invalid_response :: "string \<Rightarrow> bool \<times> string" where
  "detect_invalid_response response =
     (let response_lower = py_lower response
      in if any_in [''based on the web'', ''according to'', ''search results'',
                    ''i found'', ''from the web'', ''online sources'',
                    ''wikipedia'', ''google'', ''based on my search''] response_lower
           then (True, ''web_search'')
         else if any_in [''league of legends'', ''lol champions'', ''esports'',
                         ''game'', ''player'', ''team'', ''tournament'', ''sports'']
                   response_lower
           then (True, ''gaming_confusion'')
         else if \<not> any_in [''SELECT'', ''FROM'', ''CANNOT_ANSWER''] (py_upper response)
                 \<and> length response > 100
           then (True, ''not_sql'')
         else (False, []))"

definition err_cte :: string where
  "err_cte = ''CTEs (WITH clauses) are not allowed. Use simple SELECT.''"

definition err_subquery :: string where
  "err_subquery = ''Subqueries are not allowed. Use simple SELECT.''"

definition err_join :: string where
  "err_join = ''JOINs are not allowed. Only the leadscored table is available.''"

definition err_table :: string where
  "err_table = ''Invalid table. Only '' @ [CHR 0x27] @ ''leadscored'' @ [CHR 0x27] @
               '' table exists.''"

text \<open>
  \<open>validate_sql\<close>; the source passes the schema as well and does not read it. In
  \<open>validate_sql_with\<close> the two case mappings of the source, \<open>sql.upper()\<close> and
  \<open>sql.lower()\<close>, are the parameters \<open>up\<close> and \<open>lo\<close>; the rest is the source line by
  line, so that with the mappings of the library for \<open>up\<close> and \<open>lo\<close> it is the function of
  the program on every text. \<open>validate_sql\<close> is the function with \<open>py_upper\<close> and
  \<open>py_lower\<close>, which is the function of the program on a text of ASCII characters.
\<close>

definition validate_sql_with ::
  "(string \<Rightarrow> string) \<Rightarrow> (string \<Rightarrow> string) \<Rightarrow> string \<Rightarrow> bool \<times> string" where
  "validate_sql_with up lo sql =
     (let sql_upper = up sql
      in if py_in ''WITH '' sql_upper \<and> py_in '' AS '' sql_upper then (False, err_cte)
         else if py_count sql_upper ''SELECT'' > 1 then (False, err_subquery)
         else if py_in ''JOIN'' sql_upper then (False, err_join)
         else if \<not> py_in ''leadscored'' (lo sql) then (False, err_table)
         else (True, []))"

definition validate_sql :: "string \<Rightarrow> bool \<times> string" where
  "validate_sql sql = validate_sql_with py_upper py_lower sql"

subsection \<open>Extraction of the query text\<close>

text \<open>
  A match of the pattern \<open>SELECT\s+.+?;\<close> (ignoring case, the dot matching every
  character) at the start of a text \<open>s\<close> of ASCII characters: the keyword, the longest run
  of white space, one character and the text up to the next semicolon; when there is no
  later semicolon, the run of white space gives back its last character, which leaves a
  match only when the character after the run is the semicolon.
\<close>

definition select_match_at :: "string \<Rightarrow> string option" where
  "select_match_at s =
     (if py_upper (take 6 s) = ''SELECT'' then
        (let rest = drop 6 s;
             w = length (takeWhile py_isspace rest)
         in if w = 0 then None
            else case drop w rest of
                   [] \<Rightarrow> None
                 | c # cs \<Rightarrow>
                     if CHR '';'' \<in> set cs
                       then Some (take (6 + w + 1 + length (takeWhile (\<lambda>x. x \<noteq> CHR '';'') cs) + 1) s)
                     else if c = CHR '';'' \<and> 2 \<le> w then Some (take (6 + w + 1) s)
                     else None)
      else None)"

text \<open>\<open>re.search\<close>: the match at the leftmost position that has one.\<close>

fun re_search_select :: "string \<Rightarrow> string option" where
  "re_search_select [] = None"
| "re_search_select (c # cs) =
     (case select_match_at (c # cs) of
        Some m \<Rightarrow> Some m
      | None \<Rightarrow> re_search_select cs)"

definition extract_sql :: "string \<Rightarrow> string" where
  "extract_sql sql_text =
     (let sql_query =
            (case re_search_select sql_text of
               Some m \<Rightarrow> py_strip m
             | None \<Rightarrow>
                 if startswith (py_upper sql_text) ''SELECT''
                   then py_strip (takeWhile (\<lambda>c. c \<noteq> CHR '';'') sql_text) @ '';''
                 else sql_text)
      in py_strip (py_replace (py_replace sql_query ''```sql'' []) ''```'' []))"

subsection \<open>The pipeline node\<close>

definition clarify :: "string \<Rightarrow> string \<Rightarrow> string list \<Rightarrow> update" where
  "clarify content question options =
     no_update\<lparr>u_messages := [AIMessage content],
               u_needs_clarification := Some True,
               u_clarification_question := Some (Some question),
               u_clarification_options := Some (Some options),
               u_is_complete := Some False\<rparr>"

text \<open>The messages sent to the model in stage 1 and in stage 3.\<close>

definition plan_messages :: "string \<Rightarrow> msg list" where
  "plan_messages user_question =
     [SystemMessage (PLAN_PROMPT (py_join '', '' SCHEMA_columns)
                       (py_join '', '' SCHEMA_segment_values) user_question)]"

definition generate_messages :: "string \<Rightarrow> msg list" where
  "generate_messages plan =
     [SystemMessage (SQL_GENERATE_PROMPT plan (py_join '', '' SCHEMA_columns))]"

text \<open>Stage 5, execute.\<close>

definition sql_execute ::
  "env \<Rightarrow> event list \<Rightarrow> bool \<Rightarrow> string \<Rightarrow> string \<Rightarrow> update option \<times> event list" where
  "sql_execute env tr viz plan q =
     (case db env (length tr) q of
        DbError error_msg \<Rightarrow>
          (Some ((clarify (msg_exec_error plan q error_msg) ''Query failed. Try another?''
                    [''Show segment counts'', ''Show top customers'', ''Cancel''])
                  \<lparr>u_sql_plan := Some (Some plan),
                   u_sql_query := Some (Some q),
                   u_leads_data := Some None,
                   u_needs_visualization := Some viz\<rparr>),
           tr @ [DbQuery q])
      | DbRows df \<Rightarrow>
          (let result_text =
                 (if length df = 0 then result_no_data plan q
                  else result_rows plan q (length df) (to_markdown env (take 15 df)));
               leads_json = (if length df = 0 then None else Some (to_json env df))
           in (Some (no_update\<lparr>u_messages := [AIMessage (msg_result result_text)],
                               u_sql_plan := Some (Some plan),
                               u_sql_query := Some (Some q),
                               u_leads_data := Some leads_json,
                               u_needs_visualization := Some viz,
                               u_needs_clarification := Some False,
                               u_is_complete := Some False\<rparr>),
               tr @ [DbQuery q])))"

text \<open>The second sanity check, extraction and stage 4, validate.\<close>

definition sql_after_generate ::
  "env \<Rightarrow> event list \<Rightarrow> bool \<Rightarrow> string \<Rightarrow> string \<Rightarrow> update option \<times> event list" where
  "sql_after_generate env tr viz plan sql_text =
     (if fst (detect_invalid_response sql_text) then
        (Some (clarify msg_invalid_sql ''What would you like to query?''
                 [''Show segment counts'', ''Show top 20 Champions'', ''Show lead sources'']),
         tr)
      else
        (let q = extract_sql sql_text;
             is_valid = fst (validate_sql q);
             validation_error = snd (validate_sql q)
         in if \<not> is_valid then
              (Some ((clarify (msg_validation_failed validation_error q)
                        ''Try a simpler query?''
                        [''Show all segments'', ''Show top 10 customers'', ''Cancel''])
                      \<lparr>u_sql_plan := Some (Some plan),
                       u_sql_query := Some (Some q),
                       u_sql_validation_error := Some (Some validation_error),
                       u_leads_data := Some None,
                       u_needs_visualization := Some viz\<rparr>),
               tr)
            else sql_execute env tr viz plan q))"

text \<open>Stage 2, the sanity check of the plan, the cannot-answer marker and stage 3, generate.\<close>

definition sql_after_plan ::
  "env \<Rightarrow> event list \<Rightarrow> bool \<Rightarrow> string \<Rightarrow> update option \<times> event list" where
  "sql_after_plan env tr viz plan =
     (let is_invalid = fst (detect_invalid_response plan);
          invalid_type = snd (detect_invalid_response plan)
      in if is_invalid then
           (if invalid_type = ''gaming_confusion'' then
              (Some (clarify msg_gaming_confusion
                       (''Which '' @ [CHR 0x27] @ ''Champions'' @ [CHR 0x27] @ '' did you mean?'')
                       [''Champions customer segment'', ''Something else - let me rephrase'']),
               tr)
            else if invalid_type = ''web_search'' then
              (Some (clarify msg_web_search ''What database information do you need?''
                       [''Show segment distribution'', ''List top customers'',
                        ''Let me rephrase'']),
               tr)
            else
              (Some (clarify msg_not_sql ''Please rephrase your question''
                       [''Show all segments'', ''Show top customers'', ''Cancel'']),
               tr))
         else if startswith (py_upper plan) ''CANNOT_ANSWER'' then
           (Some (no_update\<lparr>u_messages := [AIMessage (msg_cannot_answer plan)],
                            u_sql_plan := Some (Some plan),
                            u_leads_data := Some None,
                            u_needs_visualization := Some viz,
                            u_needs_clarification := Some False,
                            u_is_complete := Some True\<rparr>),
            tr)
         else
           (let prompt = generate_messages plan
            in case llm env (length tr) prompt of
                 None \<Rightarrow> (None, tr @ [LlmCall prompt])
               | Some content \<Rightarrow>
                   sql_after_generate env (tr @ [LlmCall prompt]) viz plan
                     (py_strip content)))"

text \<open>
  The working input of the pipeline: the first user message of the log, with the
  clarification answer appended when one was supplied.
\<close>

definition working_input :: "AgentState \<Rightarrow> string" where
  "working_input s =
     (let user_question = first_human (messages s)
      in case user_clarification s of
           None \<Rightarrow> user_question
         | Some c \<Rightarrow> if c = [] then user_question else clarified user_question c)"

text \<open>The pipeline's own test for a request that asks for a chart.\<close>

definition sql_needs_viz :: "string \<Rightarrow> bool" where
  "sql_needs_viz q_lower =
     any_in [''chart'', ''pie'', ''bar'', ''graph'', ''plot'', ''visualiz'', ''distribution'']
       q_lower"

text \<open>Stage 1, plan. The result is the dict, or \<open>None\<close> when a call of the model raised.\<close>

definition sql_agent_node ::
  "env \<Rightarrow> event list \<Rightarrow> AgentState \<Rightarrow> update option \<times> event list" where
  "sql_agent_node env tr s =
     (let user_question = working_input s;
          q_lower = py_lower user_question;
          viz = sql_needs_viz q_lower;
          prompt = plan_messages user_question
      in case llm env (length tr) prompt of
           None \<Rightarrow> (None, tr @ [LlmCall prompt])
         | Some content \<Rightarrow>
             sql_after_plan env (tr @ [LlmCall prompt]) viz (py_strip content))"


section \<open>The other responders\<close>

subsection \<open>Prompts and message texts\<close>

definition glyph_caution :: string where
  "glyph_caution = [CHR 0xE2, CHR 0x9A, CHR 0xA0, CHR 0xEF, CHR 0xB8, CHR 0x8F]"

definition glyph_magnifier :: string where
  "glyph_magnifier = [CHR 0xF0, CHR 0x9F, CHR 0x94, CHR 0x8D]"

definition glyph_bullet :: string where
  "glyph_bullet = [CHR 0xE2, CHR 0x80, CHR 0xA2]"

definition DATAVIZ_PROMPT :: "string \<Rightarrow> string \<Rightarrow> string \<Rightarrow> string" where
  "DATAVIZ_PROMPT columns data_summary question =
     ''You are a Data Visualization and BI Analytics expert.\<newline>'' @
     ''\<newline>'' @
     ''Analyze the following data and provide:\<newline>'' @
     ''1. Key insights and patterns\<newline>'' @
     ''2. Recommendations based on the findings\<newline>'' @
     ''\<newline>'' @
     ''Data columns: '' @ columns @ ''\<newline>'' @
     ''Data summary:\<newline>'' @
     data_summary @ ''\<newline>'' @
     ''\<newline>'' @
     ''User question: '' @ question @ ''\<newline>'' @
     ''\<newline>'' @
     ''Provide 3-5 bullet points of actionable insights.\<newline>''"

definition msg_no_data :: "string" where
  "msg_no_data =
     ''[Data Viz Agent]\<newline>'' @
     glyph_caution @ '' No data available. Please query data first.''"

definition msg_parse_error :: "string \<Rightarrow> string" where
  "msg_parse_error e =
     ''[Data Viz Agent]\<newline>'' @
     glyph_caution @ '' Could not parse data: '' @ e"

definition msg_data_empty :: "string" where
  "msg_data_empty =
     ''[Data Viz Agent]\<newline>'' @
     glyph_caution @ '' Data is empty.''"

definition insights :: "string \<Rightarrow> string" where
  "insights content =
     ''\<newline>'' @
     ''**'' @ glyph_magnifier @ '' Insights:**\<newline>'' @
     content"

definition insights_unavailable :: "string" where
  "insights_unavailable =
     ''\<newline>'' @
     ''**'' @ glyph_magnifier @ '' Insights:** Analysis unavailable.''"

definition chart_marker :: "string \<Rightarrow> string" where
  "chart_marker chart_json =
     ''\<newline>'' @
     ''\<newline>'' @
     ''<!--CHART:'' @ chart_json @ ''-->''"

definition EMAIL_WRITER_PROMPT :: "string \<Rightarrow> string \<Rightarrow> string" where
  "EMAIL_WRITER_PROMPT leads_info product =
     ''You are an expert Marketing Email Writer specializing in personalized '' @
     ''content emails.\<newline>'' @
     ''\<newline>'' @
     ''Your emails should:\<newline>'' @
     ''1. Have an attention-grabbing subject line\<newline>'' @
     ''2. Personalize based on the audience segment\<newline>'' @
     ''3. Clearly articulate the value proposition\<newline>'' @
     ''4. Include a compelling call-to-action\<newline>'' @
     ''5. Be concise yet persuasive\<newline>'' @
     ''6. Follow best practices for email deliverability\<newline>'' @
     ''7. Understand the campaign goal (reactivation, upsell, product '' @
     ''launch)\<newline>'' @
     ''8. Adapt the tone/style appropriately (friendly, professional, '' @
     ''urgent)\<newline>'' @
     ''9. Generate a plain-text version\<newline>'' @
     ''\<newline>'' @
     ''Segment-specific tone:\<newline>'' @
     ''- Champions: VIP treatment, exclusive offers, loyalty '' @
     ''appreciation\<newline>'' @
     ''- Highly Engaged: Value reinforcement, success case studies, premium '' @
     ''features\<newline>'' @
     ''- Potential Loyalists: Nurturing, educational content, special '' @
     ''onboarding\<newline>'' @
     ''- At Risk: Re-engagement, win-back offers, '' @ [CHR 0x22] @ ''we miss you'' @
     [CHR 0x22] @ '' messaging\<newline>'' @
     ''- Low Value: Awareness building, introductory offers, low-friction '' @
     ''CTAs\<newline>'' @
     ''\<newline>'' @
     ''Target Audience Info:\<newline>'' @
     leads_info @ ''\<newline>'' @
     ''\<newline>'' @
     ''Product Info:\<newline>'' @
     product @ ''\<newline>'' @
     ''\<newline>'' @
     ''Write a complete marketing email including:\<newline>'' @
     ''- Subject Line\<newline>'' @
     ''- Preview Text\<newline>'' @
     ''- Email Body (greeting, hook, value prop, CTA)\<newline>'' @
     ''- Postscript (P.S.) with urgency element\<newline>''"

definition default_product_info :: "string" where
  "default_product_info =
     ''Learning Labs Pro - Professional development platform \<newline>'' @
     ''for career advancement with hands-on labs, portfolio building, and '' @
     ''certifications.''"

definition email_request :: "string \<Rightarrow> string" where
  "email_request user_request =
     ''Write a sales email for this request: '' @ user_request"

definition msg_email :: "string \<Rightarrow> string" where
  "msg_email email_content =
     ''[Email Writer]\<newline>'' @
     email_content"

definition product_name :: "string" where
  "product_name =
     ''Learning Labs Pro''"

definition product_tagline :: "string" where
  "product_tagline =
     ''Accelerate Your Career with Hands-On Learning''"

definition product_description :: "string" where
  "product_description =
     ''Learning Labs Pro is our flagship professional development platform '' @
     ''\<newline>'' @
     ''designed for ambitious professionals looking to advance their '' @
     ''careers.\<newline>'' @
     ''\<newline>'' @
     ''Key Features:\<newline>'' @
     glyph_bullet @ '' 500+ hands-on labs and projects across tech, business, and '' @
     ''leadership\<newline>'' @
     glyph_bullet @ '' AI-powered portfolio builder that showcases your skills to '' @
     ''employers\<newline>'' @
     glyph_bullet @
     '' Personalized learning paths based on your career goals\<newline>'' @
     glyph_bullet @ '' Industry-recognized certifications included\<newline>'' @
     glyph_bullet @ '' 1-on-1 mentorship sessions with industry experts\<newline>'' @
     glyph_bullet @ '' Job placement assistance and interview preparation\<newline>'' @
     ''\<newline>'' @
     ''Career Advancement Benefits:\<newline>'' @
     glyph_bullet @
     '' Build a professional portfolio demonstrating real-world skills\<newline>'' @
     glyph_bullet @ '' Earn certifications valued by Fortune 500 companies\<newline>'' @
     glyph_bullet @
     '' Get discovered by recruiters through our talent marketplace\<newline>'' @
     glyph_bullet @ '' Average 40% salary increase reported by completers\<newline>'' @
     ''\<newline>'' @
     ''Pricing:\<newline>'' @
     glyph_bullet @ '' Monthly: $149/month\<newline>'' @
     glyph_bullet @ '' Annual: $999/year (save 44%)\<newline>'' @
     glyph_bullet @ '' Enterprise: Custom pricing for teams\<newline>'' @
     ''\<newline>'' @
     ''Success Stories:\<newline>'' @
     glyph_bullet @
     '' 87% of users report career advancement within 6 months\<newline>'' @
     glyph_bullet @ '' 92% satisfaction rate from 50,000+ professionals\<newline>'' @
     glyph_bullet @ '' Featured in Forbes as '' @ [CHR 0x22] @
     ''Best Career Development Platform 2024'' @ [CHR 0x22] @ ''\<newline>'' @
     ''\<newline>'' @
     ''Ideal For:\<newline>'' @
     glyph_bullet @
     '' Working professionals seeking promotion or career change\<newline>'' @
     glyph_bullet @ '' Recent graduates building their portfolios\<newline>'' @
     glyph_bullet @ '' Teams looking to upskill employees\<newline>'' @
     glyph_bullet @ '' Anyone wanting practical, hands-on learning''"

definition product_str :: "string" where
  "product_str =
     ''\<newline>'' @
     ''Product: '' @ product_name @ ''\<newline>'' @
     ''Tagline: '' @ product_tagline @ ''\<newline>'' @
     ''\<newline>'' @
     product_description @ ''\<newline>''"

definition PRODUCT_EXPERT_PROMPT :: "string \<Rightarrow> string" where
  "PRODUCT_EXPERT_PROMPT product =
     ''You are a Product Expert for Learning Labs Pro.\<newline>'' @
     ''\<newline>'' @
     ''PRODUCT INFO:\<newline>'' @
     product @ ''\<newline>'' @
     ''\<newline>'' @
     ''Provide a brief, compelling summary of Learning Labs Pro that can be used '' @
     ''in a marketing email.\<newline>'' @
     ''Focus on: key benefits, pricing, and value proposition.\<newline>'' @
     ''Keep it concise (2-3 paragraphs).\<newline>''"

definition product_request :: "string \<Rightarrow> string" where
  "product_request request =
     ''Provide product information for: '' @ request"

definition msg_product :: "string \<Rightarrow> string" where
  "msg_product content =
     ''[Product Expert]\<newline>'' @
     content"

definition SEGMENTATION_PROMPT :: "string \<Rightarrow> string" where
  "SEGMENTATION_PROMPT segment_info =
     ''You are a Customer Segmentation Analyst with skills in behavioral '' @
     ''analytics, lifecycle marketing, and data-driven cohort design. You '' @
     ''analyze customer segments to provide \<newline>'' @
     ''marketing insights and strategies for each segment.\<newline>'' @
     ''\<newline>'' @
     ''The 5 Customer Segments (ranked by engagement):\<newline>'' @
     segment_info @ ''\<newline>'' @
     ''\<newline>'' @
     ''Based on this data, provide insights on:\<newline>'' @
     ''1. What defines each segment behaviorally\<newline>'' @
     ''2. Recommended marketing approaches for each\<newline>'' @
     ''3. Conversion potential and prioritization\<newline>'' @
     ''4. Re-engagement strategies for lower segments\<newline>'' @
     ''\<newline>'' @
     ''Be specific and actionable in your recommendations.\<newline>''"

definition segmentation_request :: "string \<Rightarrow> string" where
  "segmentation_request user_question =
     ''Analyze segments for this request: '' @ user_question"

definition msg_segmentation :: "string \<Rightarrow> string" where
  "msg_segmentation analysis =
     ''[Segmentation Analyst]\<newline>'' @
     analysis"

subsection \<open>Analytics responder\<close>

definition finish :: "string \<Rightarrow> update" where
  "finish content = no_update\<lparr>u_messages := [AIMessage content], u_is_complete := Some True\<rparr>"

text \<open>
  The table is read from the serialized rows by \<open>frame_of_json\<close> (\<open>Inl\<close> the text of
  the exception), \<open>viz_parts\<close> gives the lines of the report before the insights
  together with the chart payload (\<open>None\<close> when pandas raises outside a try block), and
  \<open>frame_summary\<close> the data summary of the prompt (\<open>None\<close> when it raises, inside the
  try block of the analysis).
\<close>

definition dataviz_report ::
  "env \<Rightarrow> event list \<Rightarrow> string \<Rightarrow> row list \<Rightarrow> string list \<Rightarrow> string option
     \<Rightarrow> update option \<times> event list" where
  "dataviz_report env tr user_question df result_parts chart_data =
     (let asked =
            (case frame_summary env df of
               None \<Rightarrow> None
             | Some data_summary \<Rightarrow>
                 Some [SystemMessage
                         (DATAVIZ_PROMPT (frame_columns env df) data_summary user_question),
                       HumanMessage ''Provide your analysis.'']);
          analysis =
            (case asked of
               None \<Rightarrow> insights_unavailable
             | Some prompt \<Rightarrow>
                 (case llm env (length tr) prompt of
                    None \<Rightarrow> insights_unavailable
                  | Some content \<Rightarrow> insights content));
          msg_content =
            ''[Data Viz Agent]\<newline>'' @
            py_join ''\<newline>'' (result_parts @ [analysis]) @
            (case chart_data of
               None \<Rightarrow> []
             | Some chart_json \<Rightarrow> chart_marker chart_json)
      in (Some (finish msg_content),
          (case asked of
             None \<Rightarrow> tr
           | Some prompt \<Rightarrow> tr @ [LlmCall prompt])))"

definition dataviz_agent_node ::
  "env \<Rightarrow> event list \<Rightarrow> AgentState \<Rightarrow> update option \<times> event list" where
  "dataviz_agent_node env tr s =
     (let user_question = first_human (messages s);
          q_lower = py_lower user_question
      in if \<not> truthy (leads_data s) then (Some (finish msg_no_data), tr)
         else
           (case frame_of_json env (the (leads_data s)) of
              Inl e \<Rightarrow> (Some (finish (msg_parse_error e)), tr)
            | Inr df \<Rightarrow>
                if frame_empty env df then (Some (finish msg_data_empty), tr)
                else
                  (case viz_parts env df q_lower of
                     None \<Rightarrow> (None, tr)
                   | Some (result_parts, chart_data) \<Rightarrow>
                       dataviz_report env tr user_question df result_parts chart_data)))"

subsection \<open>Content responder\<close>

text \<open>
  \<open>leads_info_of\<close> is the line about the audience that the try block computes from
  the serialized rows, \<open>None\<close> when it raises.
\<close>

definition email_writer_node ::
  "env \<Rightarrow> event list \<Rightarrow> AgentState \<Rightarrow> update option \<times> event list" where
  "email_writer_node env tr s =
     (let leads_info =
            (if truthy (leads_data s) then
               (case leads_info_of env (the (leads_data s)) of
                  None \<Rightarrow> ''Targeted lead list''
                | Some info \<Rightarrow> info)
             else ''General prospect list'');
          product =
            (if truthy (product_info s) then the (product_info s) else default_product_info);
          user_request = first_human (messages s);
          prompt = [SystemMessage (EMAIL_WRITER_PROMPT leads_info product),
                    HumanMessage (email_request user_request)]
      in case llm env (length tr) prompt of
           None \<Rightarrow> (None, tr @ [LlmCall prompt])
         | Some email_content \<Rightarrow>
             (Some (no_update\<lparr>u_messages := [AIMessage (msg_email email_content)],
                              u_email_draft := Some (Some email_content),
                              u_is_complete := Some True\<rparr>),
              tr @ [LlmCall prompt]))"

subsection \<open>Catalog responder\<close>

text \<open>The last message of the log that is a user or a responder message.\<close>

fun first_human_or_ai :: "msg list \<Rightarrow> string" where
  "first_human_or_ai [] = []"
| "first_human_or_ai (HumanMessage c # ms) = c"
| "first_human_or_ai (AIMessage c # ms) = c"
| "first_human_or_ai (m # ms) = first_human_or_ai ms"

definition product_expert_node ::
  "env \<Rightarrow> event list \<Rightarrow> AgentState \<Rightarrow> update option \<times> event list" where
  "product_expert_node env tr s =
     (let request = first_human_or_ai (rev (messages s));
          prompt = [SystemMessage (PRODUCT_EXPERT_PROMPT product_str),
                    HumanMessage (product_request request)]
      in case llm env (length tr) prompt of
           None \<Rightarrow> (None, tr @ [LlmCall prompt])
         | Some content \<Rightarrow>
             (Some (no_update\<lparr>u_messages := [AIMessage (msg_product content)],
                              u_product_info := Some (Some product_str)\<rparr>),
              tr @ [LlmCall prompt]))"

subsection \<open>Segment strategist\<close>

text \<open>\<open>segment_str\<close> is the segment table, as \<open>json.dumps\<close> renders it.\<close>

definition segmentation_agent_node ::
  "env \<Rightarrow> event list \<Rightarrow> AgentState \<Rightarrow> update option \<times> event list" where
  "segmentation_agent_node env tr s =
     (let user_question = first_human (rev (messages s));
          prompt = [SystemMessage (SEGMENTATION_PROMPT (segment_str env)),
                    HumanMessage (segmentation_request user_question)]
      in case llm env (length tr) prompt of
           None \<Rightarrow> (None, tr @ [LlmCall prompt])
         | Some analysis \<Rightarrow>
             (Some (no_update\<lparr>u_messages := [AIMessage (msg_segmentation analysis)],
                              u_segment_analysis := Some (Some analysis)\<rparr>),
              tr @ [LlmCall prompt]))"

section \<open>The workflow graph\<close>

text \<open>One node of the graph runs: the event \<open>NodeRun\<close> records it.\<close>

definition run_node ::
  "env \<Rightarrow> event list \<Rightarrow> string \<Rightarrow> AgentState \<Rightarrow> update option \<times> event list" where
  "run_node env tr n s =
     (if n = ''sql_agent'' then sql_agent_node env (tr @ [NodeRun n]) s
      else if n = ''dataviz_agent'' then dataviz_agent_node env (tr @ [NodeRun n]) s
      else if n = ''segmentation_agent'' then segmentation_agent_node env (tr @ [NodeRun n]) s
      else if n = ''product_expert'' then product_expert_node env (tr @ [NodeRun n]) s
      else if n = ''email_writer'' then email_writer_node env (tr @ [NodeRun n]) s
      else (None, tr))"

text \<open>
  What follows a decision of the Orchestrator, up to the next one: the conditional edge
  out of the Orchestrator, the responder, and the edge out of the responder (the query
  pipeline may hand over to Analytics, the Content responder ends the run, the others
  return to the Orchestrator). The event \<open>Returned\<close> records the dict that the graph
  merges into the state. \<open>Raise\<close> is an exception that leaves the graph.
\<close>

datatype phase = Back "event list" AgentState | Stop "event list" AgentState | Raise "event list"

definition agent_phase :: "env \<Rightarrow> event list \<Rightarrow> AgentState \<Rightarrow> phase" where
  "agent_phase env tr s =
     (let n = route_from_supervisor s
      in if n = ''__end__'' then Stop tr s
         else case run_node env tr n s of
                (None, tr1) \<Rightarrow> Raise tr1
              | (Some u, tr1) \<Rightarrow>
                  (let s1 = apply_update s u;
                       tr1' = tr1 @ [Returned n u]
                   in if n = ''email_writer'' then Stop tr1' s1
                      else if n = ''sql_agent'' \<and> route_after_sql s1 = ''dataviz_agent'' then
                        (case run_node env tr1' ''dataviz_agent'' s1 of
                           (None, tr2) \<Rightarrow> Raise tr2
                         | (Some u2, tr2) \<Rightarrow>
                             Back (tr2 @ [Returned ''dataviz_agent'' u2]) (apply_update s1 u2))
                      else Back tr1' s1))"

datatype outcome = Halted "event list" AgentState | Crashed "event list"

text \<open>The run of the graph from its entry point, the Orchestrator.\<close>

function run_graph :: "env \<Rightarrow> event list \<Rightarrow> AgentState \<Rightarrow> outcome" where
  "run_graph env tr s =
     (case agent_phase env (tr @ [NodeRun ''supervisor''])
             (apply_update s (supervisor_node s)) of
        Back tr' s' \<Rightarrow> run_graph env tr' s'
      | Stop tr' s' \<Rightarrow> Halted tr' s'
      | Raise tr' \<Rightarrow> Crashed tr')"
  by pat_completeness auto


text \<open>The nodes that ran, in order, and the two parts of an outcome.\<close>

fun nodes_run :: "event list \<Rightarrow> string list" where
  "nodes_run [] = []"
| "nodes_run (NodeRun n # es) = n # nodes_run es"
| "nodes_run (e # es) = nodes_run es"

fun trace_of :: "outcome \<Rightarrow> event list" where
  "trace_of (Halted tr s) = tr"
| "trace_of (Crashed tr) = tr"

fun final_state :: "outcome \<Rightarrow> AgentState option" where
  "final_state (Halted tr s) = Some s"
| "final_state (Crashed tr) = None"

section \<open>Auxiliary definitions and scenarios\<close>

text \<open>
  A user message; a state whose counter is above the ceiling while a responder is still
  to be dispatched; a state that differs from an initial state only in fields that the
  Orchestrator does not read.
\<close>

fun is_human :: "msg \<Rightarrow> bool" where
  "is_human (HumanMessage c) = True"
| "is_human m = False"

definition over_budget :: AgentState where
  "over_budget = (initial_state ''show top customers'' None)
     \<lparr>next_agent := Some ''EMAIL_WRITER'', current_step := 9,
      completed_agents := [''SQL_AGENT'']\<rparr>"

definition asked_twice :: "AgentState" where
  "asked_twice = (initial_state ''show top customers'' None)
     \<lparr>product_info := Some ''catalog'', is_complete := True, needs_clarification := True\<rparr>"

text \<open>
  An outside world in which every call succeeds: the model answers \<open>ok\<close>, the data
  store has no rows.
\<close>

definition quiet_env :: env where
  "quiet_env =
     \<lparr>llm = (\<lambda>n p. Some ''ok''),
      db = (\<lambda>n q. DbRows []),
      to_markdown = (\<lambda>df. ''| Segment |''),
      to_json = (\<lambda>df. ''[{}]''),
      frame_of_json = (\<lambda>j. Inr [[(''Segment'', ''Champions'')]]),
      frame_empty = (\<lambda>df. df = []),
      viz_parts = (\<lambda>df q. Some ([''- Total records: 1''], None)),
      frame_columns = (\<lambda>df. ''[Segment]''),
      frame_summary = (\<lambda>df. Some ''Records: 1''),
      leads_info_of = (\<lambda>j. Some ''Sending to 1 leads in segment: Champions''),
      segment_str = ''{}''\<rparr>"

text \<open>The nodes of the graph behind the Orchestrator, and the identifiers it dispatches.\<close>

definition responders :: "string list" where
  "responders = [''sql_agent'', ''dataviz_agent'', ''segmentation_agent'', ''product_expert'',
                 ''email_writer'']"

definition agents :: "string list" where
  "agents = [''SQL_AGENT'', ''DATAVIZ_AGENT'', ''SEGMENTATION_AGENT'', ''PRODUCT_EXPERT'',
             ''EMAIL_WRITER'']"

text \<open>The log of events of a phase, and how often the query pipeline ran in a log.\<close>

fun phase_trace :: "phase \<Rightarrow> event list" where
  "phase_trace (Back tr s) = tr"
| "phase_trace (Stop tr s) = tr"
| "phase_trace (Raise tr) = tr"

definition sql_runs :: "event list \<Rightarrow> nat" where
  "sql_runs tr = count_list (nodes_run tr) ''sql_agent''"

text \<open>
  A request for a chart, answered by the model with a plan and a query, and a data store
  that has rows. The model is asked for the plan after two events of the log and for the
  query after three.
\<close>

definition pie_request :: string where
  "pie_request = ''Show me segment distribution with a pie chart''"

definition pie_plan :: string where
  "pie_plan = ''Count the leads of each Segment.''"

definition pie_sql :: string where
  "pie_sql = ''SELECT Segment, COUNT(*) FROM leadscored GROUP BY Segment;''"

definition pie_env :: env where
  "pie_env = quiet_env
     \<lparr>llm := (\<lambda>n p. if n = 2 then Some pie_plan else if n = 3 then Some pie_sql
                      else Some ''Champions lead.''),
      db := (\<lambda>n q. DbRows [[(''Segment'', ''Champions''), (''COUNT(*)'', ''12'')]])\<rparr>"

text \<open>
  The phrase of a plan that drifted to the web, the dict with which the pipeline answers
  it, and a model that writes such a plan.
\<close>

definition search_phrase :: string where
  "search_phrase = ''according to recent search results''"

definition web_search_update :: update where
  "web_search_update =
     clarify msg_web_search ''What database information do you need?''
       [''Show segment distribution'', ''List top customers'', ''Let me rephrase'']"

definition web_plan :: string where
  "web_plan =
     ''According to recent search results, champions win. '' @
     ''But according to recent search results the leads are many. ''"

definition web_env :: env where
  "web_env = quiet_env\<lparr>llm := (\<lambda>n p. Some web_plan)\<rparr>"

text \<open>
  The dict of the pipeline after a query that ran, and a request whose query finds no
  row in the data store of \<open>quiet_env\<close>.
\<close>

definition rows_update :: "bool \<Rightarrow> string \<Rightarrow> string \<Rightarrow> string \<Rightarrow> string option \<Rightarrow> update" where
  "rows_update viz plan q result_text leads_json =
     no_update\<lparr>u_messages := [AIMessage (msg_result result_text)],
               u_sql_plan := Some (Some plan),
               u_sql_query := Some (Some q),
               u_leads_data := Some leads_json,
               u_needs_visualization := Some viz,
               u_needs_clarification := Some False,
               u_is_complete := Some False\<rparr>"





text \<open>
  Two requests that ask for data, the second for an email as well; with \<open>web_env\<close> the
  plan of either drifts to the web.
\<close>

definition list_request :: string where
  "list_request = ''list the customers''"

definition mail_request :: string where
  "mail_request = ''list customers and draft an email''"

text \<open>
  A property of the state in which a run halted. The two shapes of a dict of the
  pipeline: it asks for a clarification, or it answers.
\<close>

definition halted_with :: "(AgentState \<Rightarrow> bool) \<Rightarrow> outcome \<Rightarrow> bool" where
  "halted_with P out = (case out of Halted tr s \<Rightarrow> P s | Crashed tr \<Rightarrow> False)"

definition clarifies :: "update \<Rightarrow> bool" where
  "clarifies u \<longleftrightarrow>
     u_needs_clarification u = Some True \<and> u_is_complete u = Some False
     \<and> (\<exists>q. u_clarification_question u = Some (Some q))
     \<and> (\<exists>opts. u_clarification_options u = Some (Some opts) \<and> opts \<noteq> [])
     \<and> (u_leads_data u = None \<or> u_leads_data u = Some None)"

definition answers :: "update \<Rightarrow> bool" where
  "answers u \<longleftrightarrow>
     u_needs_clarification u = Some False
     \<and> (u_is_complete u = Some False \<or> u_is_complete u = Some True)"

text \<open>
  The calls of the model that directly follow a run of the pipeline node in a log: the
  calls of stage 1. A log that is extended by events other than runs of nodes. A state
  whose log holds a user message and whose working input is \<open>w\<close>. The first option of
  the clarification for a plan that drifted to the web.
\<close>

fun stage1_calls :: "event list \<Rightarrow> msg list list" where
  "stage1_calls (NodeRun n # LlmCall p # es) =
     (if n = ''sql_agent'' then [p] else []) @ stage1_calls (LlmCall p # es)"
| "stage1_calls (e # es) = stage1_calls es"
| "stage1_calls [] = []"

definition extends :: "event list \<Rightarrow> event list \<Rightarrow> bool" where
  "extends tr tr' \<longleftrightarrow> (\<exists>evs. tr' = tr @ evs \<and> nodes_run evs = [])"

definition asks :: "string \<Rightarrow> AgentState \<Rightarrow> bool" where
  "asks w s \<longleftrightarrow> list_ex is_human (messages s) \<and> working_input s = w"

definition first_option :: string where
  "first_option = ''Show segment distribution''"

text \<open>
  The dicts that the query pipeline returned in a log. The pipeline escalated in a log
  when one of them asks for a clarification; \<open>last_asks\<close> reads the last dict of a list.
\<close>

fun sql_dicts :: "event list \<Rightarrow> update list" where
  "sql_dicts [] = []"
| "sql_dicts (Returned n u # es) = (if n = ''sql_agent'' then u # sql_dicts es else sql_dicts es)"
| "sql_dicts (e # es) = sql_dicts es"

definition escalated :: "event list \<Rightarrow> bool" where
  "escalated tr = list_ex (\<lambda>u. u_needs_clarification u = Some True) (sql_dicts tr)"

definition last_asks :: "update list \<Rightarrow> bool" where
  "last_asks us \<longleftrightarrow> us \<noteq> [] \<and> u_needs_clarification (last us) = Some True"

text \<open>An occurrence of a pattern in a text, and two occurrences that do not overlap.\<close>

definition occurs :: "string \<Rightarrow> string \<Rightarrow> bool" where
  "occurs p s \<longleftrightarrow> (\<exists>a b. s = a @ p @ b)"

definition occurs_twice :: "string \<Rightarrow> string \<Rightarrow> bool" where
  "occurs_twice p s \<longleftrightarrow> (\<exists>a b c. s = a @ p @ b @ p @ c)"

text \<open>
  The rule of the claim read on the words of the query: a keyword is an occurrence,
  ignoring case, that no letter, digit or underscore precedes or follows.
\<close>

definition is_word_char :: "char \<Rightarrow> bool" where
  "is_word_char c \<longleftrightarrow> c \<in> set (upper_letters @ lower_letters @ ''0123456789_'')"

fun count_word_from :: "bool \<Rightarrow> string \<Rightarrow> string \<Rightarrow> nat" where
  "count_word_from prev kw [] = 0"
| "count_word_from prev kw (c # cs) =
     (if \<not> prev \<and> startswith (c # cs) kw
         \<and> (case drop (length kw) (c # cs) of [] \<Rightarrow> True | d # ds \<Rightarrow> \<not> is_word_char d)
      then 1 else 0)
     + count_word_from (is_word_char c) kw cs"

definition count_keyword :: "string \<Rightarrow> string \<Rightarrow> nat" where
  "count_keyword kw sql = count_word_from False kw (py_upper sql)"

definition has_keyword :: "string \<Rightarrow> string \<Rightarrow> bool" where
  "has_keyword kw sql \<longleftrightarrow> 0 < count_keyword kw sql"

definition keyword_reading_rejects :: "string \<Rightarrow> bool" where
  "keyword_reading_rejects sql \<longleftrightarrow>
     (has_keyword ''WITH'' sql \<and> has_keyword ''AS'' sql)
     \<or> 1 < count_keyword ''SELECT'' sql
     \<or> has_keyword ''JOIN'' sql
     \<or> \<not> has_keyword ''LEADSCORED'' sql"

text \<open>
  Queries: a common table expression written without a space after \<open>AS\<close>, a filter on
  the name of a city, and the four examples of the specification.
\<close>

definition cte_query :: string where
  "cte_query = ''WITH x AS(VALUES(1)) SELECT * FROM leadscored''"

definition city_query :: string where
  "city_query = ''SELECT City FROM leadscored WHERE City = '' @ [CHR 0x27] @ ''Joinville'' @
                [CHR 0x27]"

definition cte_example :: string where
  "cte_example = ''WITH x AS (...) SELECT ...''"

definition nested_example :: string where
  "nested_example = ''SELECT * FROM a WHERE id IN (SELECT id FROM a)''"

definition join_example :: string where
  "join_example = ''SELECT * FROM leadscored JOIN other ON ...''"

definition good_example :: string where
  "good_example =
     ''SELECT Segment, COUNT(*) FROM leadscored GROUP BY Segment ORDER BY COUNT(*) DESC''"

text \<open>The dict of the pipeline for a query that fails validation.\<close>

definition validation_update :: "bool \<Rightarrow> string \<Rightarrow> string \<Rightarrow> string \<Rightarrow> update" where
  "validation_update viz plan q validation_error =
     (clarify (msg_validation_failed validation_error q) ''Try a simpler query?''
        [''Show all segments'', ''Show top 10 customers'', ''Cancel''])
     \<lparr>u_sql_plan := Some (Some plan),
      u_sql_query := Some (Some q),
      u_sql_validation_error := Some (Some validation_error),
      u_leads_data := Some None,
      u_needs_visualization := Some viz\<rparr>"

subsection \<open>What a responder leaves alone, and the end of every run\<close>

lemma supervisor_node_step:
  "u_current_step (supervisor_node s) = Some (current_step s + 1)"
  by (simp add: supervisor_node_def dispatch_def all_done_def no_update_def Let_def)

lemma sql_execute_frame:
  "sql_execute env tr v plan q = (Some u, tr') \<Longrightarrow>
     u_current_step u = None \<and> u_completed_agents u = None \<and> u_next_agent u = None"
  by (auto simp: sql_execute_def clarify_def no_update_def Let_def split: db_result.splits)

lemma sql_after_generate_frame:
  "sql_after_generate env tr v plan t = (Some u, tr') \<Longrightarrow>
     u_current_step u = None \<and> u_completed_agents u = None \<and> u_next_agent u = None"
  by (auto simp: sql_after_generate_def clarify_def no_update_def Let_def
      dest: sql_execute_frame split: if_splits)

lemma sql_after_plan_frame:
  "sql_after_plan env tr v plan = (Some u, tr') \<Longrightarrow>
     u_current_step u = None \<and> u_completed_agents u = None \<and> u_next_agent u = None"
  by (auto simp: sql_after_plan_def clarify_def no_update_def Let_def
      dest: sql_after_generate_frame split: if_splits option.splits)

lemma sql_agent_node_frame:
  "sql_agent_node env tr s = (Some u, tr') \<Longrightarrow>
     u_current_step u = None \<and> u_completed_agents u = None \<and> u_next_agent u = None"
  by (auto simp: sql_agent_node_def Let_def dest: sql_after_plan_frame split: option.splits)

lemma dataviz_agent_node_frame:
  "dataviz_agent_node env tr s = (Some u, tr') \<Longrightarrow>
     u_current_step u = None \<and> u_completed_agents u = None \<and> u_next_agent u = None"
  by (auto simp: dataviz_agent_node_def dataviz_report_def finish_def no_update_def Let_def
      split: if_splits sum.splits option.splits prod.splits)

lemma email_writer_node_frame:
  "email_writer_node env tr s = (Some u, tr') \<Longrightarrow>
     u_current_step u = None \<and> u_completed_agents u = None \<and> u_next_agent u = None"
  by (auto simp: email_writer_node_def no_update_def Let_def split: option.splits)

lemma product_expert_node_frame:
  "product_expert_node env tr s = (Some u, tr') \<Longrightarrow>
     u_current_step u = None \<and> u_completed_agents u = None \<and> u_next_agent u = None"
  by (auto simp: product_expert_node_def no_update_def Let_def split: option.splits)

lemma segmentation_agent_node_frame:
  "segmentation_agent_node env tr s = (Some u, tr') \<Longrightarrow>
     u_current_step u = None \<and> u_completed_agents u = None \<and> u_next_agent u = None"
  by (auto simp: segmentation_agent_node_def no_update_def Let_def split: option.splits)

lemma run_node_frame:
  "run_node env tr n s = (Some u, tr') \<Longrightarrow>
     u_current_step u = None \<and> u_completed_agents u = None \<and> u_next_agent u = None"
  unfolding run_node_def
  by (auto dest: sql_agent_node_frame dataviz_agent_node_frame email_writer_node_frame
      product_expert_node_frame segmentation_agent_node_frame split: if_splits)

lemma apply_update_frame:
  "u_current_step u = None \<Longrightarrow> current_step (apply_update s u) = current_step s"
  "u_completed_agents u = None \<Longrightarrow> completed_agents (apply_update s u) = completed_agents s"
  by (simp_all add: apply_update_def put_def)

lemma agent_phase_Back:
  "agent_phase env tr s = Back tr' s' \<Longrightarrow>
     current_step s' = current_step s \<and> current_step s \<le> 8
     \<and> completed_agents s' = completed_agents s"
  unfolding agent_phase_def Let_def
  by (auto simp: apply_update_frame route_from_supervisor_def dest!: run_node_frame
      split: if_splits prod.splits option.splits)


lemma supervisor_step_applied:
  "current_step (apply_update s (supervisor_node s)) = current_step s + 1"
  by (simp add: apply_update_def put_def supervisor_node_step)

text \<open>
  A run ends: every decision of the Orchestrator adds one to \<open>current_step\<close>, no
  responder changes it, and the edge out of the Orchestrator ends the run above 8.
\<close>

termination run_graph
proof (relation "measure (\<lambda>(env, tr, s). nat (9 - current_step s))")
  show "wf (measure (\<lambda>(env, tr, s). nat (9 - current_step s)))"
    by simp
next
  fix env :: env and tr :: "event list" and s :: AgentState and tr' s'
  assume "agent_phase env (tr @ [NodeRun ''supervisor''])
            (apply_update s (supervisor_node s)) = Back tr' s'"
  from agent_phase_Back [OF this]
  have "current_step s' = current_step s + 1" and "current_step s + 1 \<le> 8"
    by (simp_all add: supervisor_step_applied)
  then show "((env, tr', s'), (env, tr, s)) \<in> measure (\<lambda>(env, tr, s). nat (9 - current_step s))"
    by simp
qed


declare run_graph.simps [simp del]
section \<open>Occurrences in strings\<close>

text \<open>The searches of the code find exactly the occurrences of the pattern.\<close>

lemma startswith_iff: "startswith s p \<longleftrightarrow> (\<exists>t. s = p @ t)"
  by (induction s p rule: startswith.induct) auto

lemma py_in_iff: "py_in p s \<longleftrightarrow> (\<exists>a b. s = a @ p @ b)"
proof (induction s)
  case Nil
  then show ?case by auto
next
  case (Cons c cs)
  show ?case
  proof
    assume "py_in p (c # cs)"
    then consider "startswith (c # cs) p" | "py_in p cs" by auto
    then show "\<exists>a b. c # cs = a @ p @ b"
    proof cases
      case 1
      then obtain t where "c # cs = p @ t" by (auto simp: startswith_iff)
      then have "c # cs = [] @ p @ t" by simp
      then show ?thesis by blast
    next
      case 2
      with Cons obtain a b where "cs = a @ p @ b" by auto
      then have "c # cs = (c # a) @ p @ b" by simp
      then show ?thesis by blast
    qed
  next
    assume "\<exists>a b. c # cs = a @ p @ b"
    then obtain a b where ab: "c # cs = a @ p @ b" by blast
    show "py_in p (c # cs)"
    proof (cases a)
      case Nil
      with ab have "startswith (c # cs) p" by (auto simp: startswith_iff)
      then show ?thesis by simp
    next
      case (Cons x a')
      with ab have "cs = a' @ p @ b" by simp
      with Cons.IH have "py_in p cs" by blast
      then show ?thesis by simp
    qed
  qed
qed

lemma py_in_map: "py_in p s \<Longrightarrow> py_in (map f p) (map f s)"
  unfolding py_in_iff by (metis map_append)

lemma py_in_shorter: "py_in (p @ q) s \<Longrightarrow> py_in p s"
  unfolding py_in_iff by (metis append.assoc)

lemma dropWhile_keeps_occurrence:
  assumes "p \<noteq> []" and "\<not> P (hd p)"
  shows "\<exists>a'. dropWhile P (a @ p @ b) = a' @ p @ b"
proof (cases "\<forall>x\<in>set a. P x")
  case True
  have "dropWhile P (p @ b) = p @ b"
    using assms by (cases p) simp_all
  with True have "dropWhile P (a @ p @ b) = [] @ p @ b"
    by simp
  then show ?thesis by blast
next
  case False
  then obtain x where "x \<in> set a" and "\<not> P x" by blast
  then have "dropWhile P (a @ p @ b) = dropWhile P a @ p @ b"
    by (rule dropWhile_append1)
  then show ?thesis by blast
qed

lemma py_in_strip:
  assumes "py_in p s" and "p \<noteq> []" and "\<not> py_isspace (hd p)" and "\<not> py_isspace (last p)"
  shows "py_in p (py_strip s)"
proof -
  from assms(1) obtain a b where s: "s = a @ p @ b"
    by (auto simp: py_in_iff)
  obtain a' where a': "dropWhile py_isspace s = a' @ p @ b"
    using dropWhile_keeps_occurrence [where P = py_isspace and p = p and a = a and b = b]
      assms(2,3) s by auto
  have r: "rev p \<noteq> []" "\<not> py_isspace (hd (rev p))"
    using assms(2,4) by (simp_all add: hd_rev)
  have "rev (a' @ p @ b) = rev b @ rev p @ rev a'" by simp
  then obtain b' where "dropWhile py_isspace (rev (a' @ p @ b)) = b' @ rev p @ rev a'"
    using dropWhile_keeps_occurrence
            [where P = py_isspace and p = "rev p" and a = "rev b" and b = "rev a'"] r
    by auto
  then have "py_strip s = a' @ p @ rev b'"
    by (simp add: py_strip_def a')
  then show ?thesis
    by (auto simp: py_in_iff)
qed


text \<open>The count of the code is above one exactly when the pattern occurs twice.\<close>

lemma py_in_occurs: "py_in p s \<longleftrightarrow> occurs p s"
  by (simp add: py_in_iff occurs_def)

lemma py_count_pos: "p \<noteq> [] \<Longrightarrow> 0 < py_count s p \<longleftrightarrow> py_in p s"
  by (induction s p rule: py_count.induct) auto

lemma startswith_drop: "startswith s p \<Longrightarrow> s = p @ drop (length p) s"
  by (auto simp: startswith_iff)

lemma py_count_twice:
  assumes "p \<noteq> []"
  shows "1 < py_count s p \<longleftrightarrow> occurs_twice p s"
  using assms
proof (induction s p rule: py_count.induct)
  case (1 p)
  then show ?case by (simp add: occurs_twice_def)
next
  case (2 c cs p)
  let ?s = "c # cs"
  show ?case
  proof (cases "startswith ?s p")
    case True
    have s: "?s = p @ drop (length p) ?s"
      using True by (rule startswith_drop)
    have cnt: "py_count ?s p = Suc (py_count (drop (length p) ?s) p)"
      using True "2.prems" by simp
    show ?thesis
    proof
      assume "1 < py_count ?s p"
      with cnt have "py_in p (drop (length p) ?s)"
        using py_count_pos [OF "2.prems"] by simp
      then obtain a b where "drop (length p) ?s = a @ p @ b"
        by (auto simp: py_in_iff)
      with s have "?s = [] @ p @ a @ p @ b" by simp
      then show "occurs_twice p ?s"
        unfolding occurs_twice_def by blast
    next
      assume "occurs_twice p ?s"
      then obtain a b d where abd: "?s = a @ p @ b @ p @ d"
        unfolding occurs_twice_def by blast
      define x where "x = a @ p @ b"
      have len: "length p \<le> length x"
        by (simp add: x_def)
      have "?s = x @ p @ d"
        using abd by (simp add: x_def)
      then have "drop (length p) ?s = drop (length p) x @ p @ d"
        using len by simp
      then have "py_in p (drop (length p) ?s)"
        unfolding py_in_iff by blast
      then show "1 < py_count ?s p"
        using cnt py_count_pos [OF "2.prems"] by simp
    qed
  next
    case False
    have cnt: "py_count ?s p = py_count cs p"
      using False "2.prems" by simp
    have ih: "1 < py_count cs p \<longleftrightarrow> occurs_twice p cs"
      using "2.IH"(3) [OF "2.prems" False "2.prems"] .
    show ?thesis
    proof
      assume "1 < py_count ?s p"
      with cnt ih obtain a b d where "cs = a @ p @ b @ p @ d"
        unfolding occurs_twice_def by auto
      then have "?s = (c # a) @ p @ b @ p @ d" by simp
      then show "occurs_twice p ?s"
        unfolding occurs_twice_def by blast
    next
      assume "occurs_twice p ?s"
      then obtain a b d where abd: "?s = a @ p @ b @ p @ d"
        unfolding occurs_twice_def by blast
      have "a \<noteq> []"
      proof
        assume "a = []"
        with abd have "startswith ?s p" by (auto simp: startswith_iff)
        with False show False by simp
      qed
      then obtain a' where "a = c # a'" and "cs = a' @ p @ b @ p @ d"
        using abd by (cases a) auto
      then have "occurs_twice p cs"
        unfolding occurs_twice_def by blast
      with cnt ih show "1 < py_count ?s p" by simp
    qed
  qed
qed


section \<open>The first request of the log\<close>

lemma first_human_append:
  "list_ex is_human ms \<Longrightarrow> first_human (ms @ later) = first_human ms"
proof (induction ms)
  case Nil
  then show ?case by simp
next
  case (Cons m ms)
  then show ?case by (cases m) simp_all
qed

lemma supervisor_node_cong:
  assumes "first_human (messages s) = first_human (messages t)"
    and "completed_agents s = completed_agents t"
    and "current_step s = current_step t"
    and "truthy (leads_data s) = truthy (leads_data t)"
  shows "supervisor_node s = supervisor_node t"
proof -
  have d: "dispatch s a = dispatch t a" for a
    using assms by (simp add: dispatch_def)
  have e: "all_done s = all_done t"
    using assms by (simp add: all_done_def)
  show ?thesis
    unfolding supervisor_node_def by (simp only: assms d e)
qed

section \<open>The nodes a run executes\<close>

lemma nodes_run_append: "nodes_run (a @ b) = nodes_run a @ nodes_run b"
  by (induction a rule: nodes_run.induct) simp_all

lemma sql_execute_nodes: "nodes_run (snd (sql_execute env tr v plan q)) = nodes_run tr"
  by (simp add: sql_execute_def Let_def nodes_run_append split: db_result.splits)

lemma sql_after_generate_nodes:
  "nodes_run (snd (sql_after_generate env tr v plan t)) = nodes_run tr"
  by (simp add: sql_after_generate_def Let_def sql_execute_nodes)

lemma sql_after_plan_nodes: "nodes_run (snd (sql_after_plan env tr v plan)) = nodes_run tr"
  by (simp add: sql_after_plan_def Let_def sql_after_generate_nodes nodes_run_append
      split: option.splits)

lemma sql_agent_node_nodes: "nodes_run (snd (sql_agent_node env tr s)) = nodes_run tr"
  by (simp add: sql_agent_node_def Let_def sql_after_plan_nodes nodes_run_append
      split: option.splits)

lemma dataviz_agent_node_nodes: "nodes_run (snd (dataviz_agent_node env tr s)) = nodes_run tr"
  by (simp add: dataviz_agent_node_def dataviz_report_def Let_def nodes_run_append
      split: option.splits sum.splits prod.splits)

lemma email_writer_node_nodes: "nodes_run (snd (email_writer_node env tr s)) = nodes_run tr"
  by (simp add: email_writer_node_def Let_def nodes_run_append split: option.splits)

lemma product_expert_node_nodes: "nodes_run (snd (product_expert_node env tr s)) = nodes_run tr"
  by (simp add: product_expert_node_def Let_def nodes_run_append split: option.splits)

lemma segmentation_agent_node_nodes:
  "nodes_run (snd (segmentation_agent_node env tr s)) = nodes_run tr"
  by (simp add: segmentation_agent_node_def Let_def nodes_run_append split: option.splits)

lemma run_node_nodes:
  "nodes_run (snd (run_node env tr n s)) =
     nodes_run tr @ (if n \<in> set responders then [n] else [])"
  by (simp add: run_node_def responders_def nodes_run_append sql_agent_node_nodes
      dataviz_agent_node_nodes email_writer_node_nodes product_expert_node_nodes
      segmentation_agent_node_nodes)

lemma route_from_supervisor_range:
  "route_from_supervisor s \<in> set (''__end__'' # responders)"
  by (auto simp: route_from_supervisor_def responders_def split: option.splits)

text \<open>
  The nodes of one phase: the responder the Orchestrator chose, and Analytics after the
  pipeline when the edge out of the pipeline leads there.
\<close>

lemma agent_phase_nodes:
  "nodes_run (phase_trace (agent_phase env tr s)) =
     nodes_run tr @
     (let n = route_from_supervisor s
      in if n = ''__end__'' then []
         else case run_node env tr n s of
                (None, tr1) \<Rightarrow> [n]
              | (Some u, tr1) \<Rightarrow>
                  if n = ''sql_agent'' \<and> route_after_sql (apply_update s u) = ''dataviz_agent''
                    then [n, ''dataviz_agent''] else [n])"
proof -
  let ?n = "route_from_supervisor s"
  have n: "?n = ''__end__'' \<or> ?n \<in> set responders"
    using route_from_supervisor_range [of s] by simp
  show ?thesis
  proof (cases "?n = ''__end__''")
    case True
    then show ?thesis by (simp add: agent_phase_def)
  next
    case False
    with n have r: "?n \<in> set responders" by simp
    obtain r1 tr1 where one: "run_node env tr ?n s = (r1, tr1)"
      by (cases "run_node env tr ?n s")
    have tr1: "nodes_run tr1 = nodes_run tr @ [?n]"
      using run_node_nodes [of env tr ?n s] r one by simp
    show ?thesis
    proof (cases r1)
      case None
      with False one tr1 show ?thesis by (simp add: agent_phase_def)
    next
      case (Some u)
      let ?tr1 = "tr1 @ [Returned ?n u]"
      obtain r2 tr2 where two: "run_node env ?tr1 ''dataviz_agent'' (apply_update s u) = (r2, tr2)"
        by (cases "run_node env ?tr1 ''dataviz_agent'' (apply_update s u)")
      have tr2: "nodes_run tr2 = nodes_run tr @ [?n, ''dataviz_agent'']"
        using run_node_nodes [of env ?tr1 "''dataviz_agent''" "apply_update s u"] two tr1
        by (simp add: responders_def nodes_run_append)
      from False one Some tr1 two tr2 show ?thesis
        by (cases r2) (auto simp: agent_phase_def Let_def nodes_run_append)
    qed
  qed
qed


text \<open>A decision either dispatches a responder that has not run, or ends the turn.\<close>

lemma if_cases_rule: "(c \<Longrightarrow> P a) \<Longrightarrow> (\<not> c \<Longrightarrow> P b) \<Longrightarrow> P (if c then a else b)"
  by simp

lemma supervisor_node_cases:
  "(\<exists>a v. a \<in> set agents \<and> a \<notin> set (completed_agents s)
       \<and> supervisor_node s = (dispatch s a)\<lparr>u_needs_visualization := v\<rparr>)
   \<or> supervisor_node s = all_done s"
proof -
  define P where "P u \<longleftrightarrow>
    (\<exists>a v. a \<in> set agents \<and> a \<notin> set (completed_agents s)
       \<and> u = (dispatch s a)\<lparr>u_needs_visualization := v\<rparr>) \<or> u = all_done s" for u
  have d: "P ((dispatch s a)\<lparr>u_needs_visualization := v\<rparr>)"
    if "a \<in> set agents" and "a \<notin> set (completed_agents s)" for a v
    using that unfolding P_def by blast
  have same: "dispatch s a = (dispatch s a)\<lparr>u_needs_visualization := None\<rparr>" for a
    by (simp add: dispatch_def no_update_def)
  have d0: "P (dispatch s a)"
    if "a \<in> set agents" and "a \<notin> set (completed_agents s)" for a
    using d [OF that, of None] same [of a] by simp
  have e: "P (all_done s)"
    unfolding P_def by simp
  have "P (supervisor_node s)"
    unfolding supervisor_node_def Let_def
    by (intro if_cases_rule [where P = P] d d0 e) (simp_all add: agents_def)
  then show ?thesis
    unfolding P_def .
qed

lemma decided_next_agent:
  assumes "next_agent (apply_update s (supervisor_node s)) = Some a" and "a \<noteq> ''COMPLETE''"
  shows "a \<notin> set (completed_agents s)
     \<and> completed_agents (apply_update s (supervisor_node s)) = completed_agents s @ [a]"
proof -
  from supervisor_node_cases [of s] show ?thesis
  proof (elim disjE exE conjE)
    fix b v
    assume b: "b \<notin> set (completed_agents s)"
      and u: "supervisor_node s = (dispatch s b)\<lparr>u_needs_visualization := v\<rparr>"
    from assms(1) have "a = b"
      by (simp add: u apply_update_def put_def dispatch_def no_update_def)
    with b show ?thesis
      by (simp add: u apply_update_def put_def dispatch_def no_update_def)
  next
    assume "supervisor_node s = all_done s"
    with assms show ?thesis
      by (simp add: apply_update_def put_def all_done_def no_update_def)
  qed
qed

lemma decided_completed_mono:
  "set (completed_agents s) \<subseteq> set (completed_agents (apply_update s (supervisor_node s)))"
proof -
  from supervisor_node_cases [of s] show ?thesis
  proof (elim disjE exE conjE)
    fix b v
    assume "supervisor_node s = (dispatch s b)\<lparr>u_needs_visualization := v\<rparr>"
    then show ?thesis
      by (auto simp: apply_update_def put_def dispatch_def no_update_def)
  next
    assume "supervisor_node s = all_done s"
    then show ?thesis
      by (simp add: apply_update_def put_def all_done_def no_update_def)
  qed
qed

lemma route_sql_agent:
  "route_from_supervisor s = ''sql_agent'' \<Longrightarrow> next_agent s = Some ''SQL_AGENT''"
  by (auto simp: route_from_supervisor_def split: if_splits option.splits)

lemma agent_phase_sql_runs:
  "sql_runs (phase_trace (agent_phase env tr s)) =
     sql_runs tr + (if route_from_supervisor s = ''sql_agent'' then 1 else 0)"
proof -
  let ?n = "route_from_supervisor s"
  obtain r1 tr1 where one: "run_node env tr ?n s = (r1, tr1)"
    by (cases "run_node env tr ?n s")
  have e: "?n = ''__end__'' \<Longrightarrow> ?n \<noteq> ''sql_agent''"
    by simp
  show ?thesis
    unfolding sql_runs_def agent_phase_nodes Let_def one
    by (cases r1) (use e in \<open>simp_all add: nodes_run_append\<close>)
qed

lemma run_graph_sql_runs:
  "sql_runs (trace_of (run_graph env tr s))
     \<le> sql_runs tr + (if ''SQL_AGENT'' \<in> set (completed_agents s) then 0 else 1)"
proof (induction env tr s rule: run_graph.induct)
  case (1 env tr s)
  let ?s1 = "apply_update s (supervisor_node s)"
  let ?tr1 = "tr @ [NodeRun ''supervisor'']"
  let ?ph = "agent_phase env ?tr1 ?s1"
  have tr1: "sql_runs ?tr1 = sql_runs tr"
    by (simp add: sql_runs_def nodes_run_append)
  have ph: "sql_runs (phase_trace ?ph)
      = sql_runs tr + (if route_from_supervisor ?s1 = ''sql_agent'' then 1 else 0)"
    by (simp add: agent_phase_sql_runs tr1)
  have fresh: "''SQL_AGENT'' \<notin> set (completed_agents s)
      \<and> ''SQL_AGENT'' \<in> set (completed_agents ?s1)"
    if "route_from_supervisor ?s1 = ''sql_agent''"
    using decided_next_agent [OF route_sql_agent [OF that]] by simp
  have bound: "sql_runs (phase_trace ?ph)
      \<le> sql_runs tr + (if ''SQL_AGENT'' \<in> set (completed_agents s) then 0 else 1)"
    using ph fresh by auto
  show ?case
  proof (cases ?ph)
    case (Back tr' s')
    have keep: "completed_agents s' = completed_agents ?s1"
      using agent_phase_Back [OF Back] by simp
    have ih: "sql_runs (trace_of (run_graph env tr' s'))
        \<le> sql_runs tr' + (if ''SQL_AGENT'' \<in> set (completed_agents s') then 0 else 1)"
      using "1.IH" [OF Back] .
    have tr': "sql_runs tr'
        = sql_runs tr + (if route_from_supervisor ?s1 = ''sql_agent'' then 1 else 0)"
      using ph Back by simp
    have "sql_runs tr' + (if ''SQL_AGENT'' \<in> set (completed_agents s') then 0 else 1)
        \<le> sql_runs tr + (if ''SQL_AGENT'' \<in> set (completed_agents s) then 0 else 1)"
      using tr' keep fresh decided_completed_mono [of s] by auto
    with ih have "sql_runs (trace_of (run_graph env tr' s'))
        \<le> sql_runs tr + (if ''SQL_AGENT'' \<in> set (completed_agents s) then 0 else 1)"
      by (rule le_trans)
    then show ?thesis
      by (subst run_graph.simps) (simp add: Back)
  next
    case (Stop tr' s')
    with bound show ?thesis
      by (subst run_graph.simps) simp
  next
    case (Raise tr')
    with bound show ?thesis
      by (subst run_graph.simps) simp
  qed
qed

section \<open>Invariants of a run\<close>

text \<open>
  A property of the state that every decision of the Orchestrator and every responder
  preserves holds in the state in which the run halts.
\<close>

lemma agent_phase_invariant:
  assumes i: "I s"
    and node: "\<And>s n tr u tr'. I s \<Longrightarrow> run_node env tr n s = (Some u, tr') \<Longrightarrow> I (apply_update s u)"
    and ph: "agent_phase env tr s = Back tr' s' \<or> agent_phase env tr s = Stop tr' s'"
  shows "I s'"
proof -
  let ?n = "route_from_supervisor s"
  show ?thesis
  proof (cases "?n = ''__end__''")
    case True
    with ph i show ?thesis by (simp add: agent_phase_def)
  next
    case False
    obtain r1 tr1 where one: "run_node env tr ?n s = (r1, tr1)"
      by (cases "run_node env tr ?n s")
    show ?thesis
    proof (cases r1)
      case None
      with False one ph show ?thesis by (simp add: agent_phase_def)
    next
      case (Some u)
      have i1: "I (apply_update s u)"
        using node [OF i] one Some by simp
      obtain r2 tr2
        where two: "run_node env (tr1 @ [Returned ?n u]) ''dataviz_agent'' (apply_update s u)
                      = (r2, tr2)"
        by (cases "run_node env (tr1 @ [Returned ?n u]) ''dataviz_agent'' (apply_update s u)")
      show ?thesis
      proof (cases r2)
        case None
        with False one Some two ph i1 show ?thesis
          by (auto simp: agent_phase_def Let_def split: if_splits)
      next
        case u2: (Some u2)
        have "I (apply_update (apply_update s u) u2)"
          using node [OF i1] two u2 by simp
        with False one Some two u2 ph i1 show ?thesis
          by (auto simp: agent_phase_def Let_def split: if_splits)
      qed
    qed
  qed
qed

lemma run_graph_invariant:
  assumes "I s"
    and "\<And>s. I s \<Longrightarrow> I (apply_update s (supervisor_node s))"
    and "\<And>s n tr u tr'. I s \<Longrightarrow> run_node env tr n s = (Some u, tr') \<Longrightarrow> I (apply_update s u)"
    and "run_graph env tr s = Halted tr' s'"
  shows "I s'"
  using assms
proof (induction env tr s rule: run_graph.induct)
  case (1 env tr s)
  let ?s1 = "apply_update s (supervisor_node s)"
  let ?ph = "agent_phase env (tr @ [NodeRun ''supervisor'']) ?s1"
  note sup = "1.prems"(2) and node = "1.prems"(3) and halted = "1.prems"(4)
  have i1: "I ?s1"
    using "1.prems"(1) by (rule sup)
  have after: "I s1" if "?ph = Back tr1 s1 \<or> ?ph = Stop tr1 s1" for tr1 s1
  proof (rule agent_phase_invariant [where I = I and env = env])
    show "I ?s1" by (rule i1)
    show "?ph = Back tr1 s1 \<or> ?ph = Stop tr1 s1" by (rule that)
  next
    fix s n tr u tr'
    assume "I s" and "run_node env tr n s = (Some u, tr')"
    then show "I (apply_update s u)" by (rule node)
  qed
  show ?case
  proof (cases ?ph)
    case (Back tr1 s1)
    show ?thesis
    proof (rule "1.IH" [OF Back])
      show "I s1"
        using after Back by blast
      show "run_graph env tr1 s1 = Halted tr' s'"
        using halted by (subst (asm) run_graph.simps) (simp add: Back)
    next
      fix s
      assume "I s"
      then show "I (apply_update s (supervisor_node s))" by (rule sup)
    next
      fix s n tr u tr'
      assume "I s" and "run_node env tr n s = (Some u, tr')"
      then show "I (apply_update s u)" by (rule node)
    qed
  next
    case (Stop tr1 s1)
    have "I s1"
      using after Stop by blast
    moreover have "s1 = s'"
      using halted by (subst (asm) run_graph.simps) (simp add: Stop)
    ultimately show ?thesis by simp
  next
    case (Raise tr1)
    with halted show ?thesis
      by (subst (asm) run_graph.simps) simp
  qed
qed

text \<open>No identifier is recorded twice in \<open>completed_agents\<close>.\<close>

lemma completed_agents_distinct:
  assumes "run_graph env [] (initial_state request answer) = Halted tr' s'"
  shows "distinct (completed_agents s')"
proof (rule run_graph_invariant [where I = "\<lambda>s. distinct (completed_agents s)", OF _ _ _ assms])
  show "distinct (completed_agents (initial_state request answer))"
    by (simp add: initial_state_def)
next
  fix s :: AgentState
  assume d: "distinct (completed_agents s)"
  from supervisor_node_cases [of s]
  show "distinct (completed_agents (apply_update s (supervisor_node s)))"
  proof (elim disjE exE conjE)
    fix b v
    assume "b \<notin> set (completed_agents s)"
      and "supervisor_node s = (dispatch s b)\<lparr>u_needs_visualization := v\<rparr>"
    with d show ?thesis
      by (simp add: apply_update_def put_def dispatch_def no_update_def)
  next
    assume "supervisor_node s = all_done s"
    with d show ?thesis
      by (simp add: apply_update_def put_def all_done_def no_update_def)
  qed
next
  fix s :: AgentState and n tr u tr'
  assume "distinct (completed_agents s)" and "run_node env tr n s = (Some u, tr')"
  then show "distinct (completed_agents (apply_update s u))"
    using run_node_frame apply_update_frame(2) by metis
qed

text \<open>
  The same for a property of the log and the state together, where the log of a responder
  ends with the dict it returned.
\<close>

lemma agent_phase_log_invariant:
  assumes j: "J tr s"
    and node: "\<And>s n tr u tr'. J tr s \<Longrightarrow> run_node env tr n s = (Some u, tr')
                 \<Longrightarrow> J (tr' @ [Returned n u]) (apply_update s u)"
    and ph: "agent_phase env tr s = Back tr' s' \<or> agent_phase env tr s = Stop tr' s'"
  shows "J tr' s'"
proof -
  let ?n = "route_from_supervisor s"
  show ?thesis
  proof (cases "?n = ''__end__''")
    case True
    with ph j show ?thesis by (simp add: agent_phase_def)
  next
    case False
    obtain r1 tr1 where one: "run_node env tr ?n s = (r1, tr1)"
      by (cases "run_node env tr ?n s")
    show ?thesis
    proof (cases r1)
      case None
      with False one ph show ?thesis by (simp add: agent_phase_def)
    next
      case (Some u)
      let ?tr1 = "tr1 @ [Returned ?n u]"
      have j1: "J ?tr1 (apply_update s u)"
        using node [OF j] one Some by simp
      obtain r2 tr2
        where two: "run_node env ?tr1 ''dataviz_agent'' (apply_update s u) = (r2, tr2)"
        by (cases "run_node env ?tr1 ''dataviz_agent'' (apply_update s u)")
      show ?thesis
      proof (cases r2)
        case None
        with False one Some two ph j1 show ?thesis
          by (auto simp: agent_phase_def Let_def split: if_splits)
      next
        case u2: (Some u2)
        have "J (tr2 @ [Returned ''dataviz_agent'' u2]) (apply_update (apply_update s u) u2)"
          using node [OF j1] two u2 by simp
        with False one Some two u2 ph j1 show ?thesis
          by (auto simp: agent_phase_def Let_def split: if_splits)
      qed
    qed
  qed
qed

lemma run_graph_log_invariant:
  assumes "J tr s"
    and "\<And>tr s. J tr s \<Longrightarrow> J (tr @ [NodeRun ''supervisor'']) (apply_update s (supervisor_node s))"
    and "\<And>s n tr u tr'. J tr s \<Longrightarrow> run_node env tr n s = (Some u, tr')
           \<Longrightarrow> J (tr' @ [Returned n u]) (apply_update s u)"
    and "run_graph env tr s = Halted tr' s'"
  shows "J tr' s'"
  using assms
proof (induction env tr s rule: run_graph.induct)
  case (1 env tr s)
  let ?s1 = "apply_update s (supervisor_node s)"
  let ?tr1 = "tr @ [NodeRun ''supervisor'']"
  let ?ph = "agent_phase env ?tr1 ?s1"
  note sup = "1.prems"(2) and node = "1.prems"(3) and halted = "1.prems"(4)
  have j1: "J ?tr1 ?s1"
    using "1.prems"(1) by (rule sup)
  have after: "J tr1 s1" if "?ph = Back tr1 s1 \<or> ?ph = Stop tr1 s1" for tr1 s1
  proof (rule agent_phase_log_invariant [where J = J and env = env])
    show "J ?tr1 ?s1" by (rule j1)
    show "?ph = Back tr1 s1 \<or> ?ph = Stop tr1 s1" by (rule that)
  next
    fix s n tr u tr'
    assume "J tr s" and "run_node env tr n s = (Some u, tr')"
    then show "J (tr' @ [Returned n u]) (apply_update s u)" by (rule node)
  qed
  show ?case
  proof (cases ?ph)
    case (Back tr1 s1)
    show ?thesis
    proof (rule "1.IH" [OF Back])
      show "J tr1 s1"
        using after Back by blast
      show "run_graph env tr1 s1 = Halted tr' s'"
        using halted by (subst (asm) run_graph.simps) (simp add: Back)
    next
      fix tr s
      assume "J tr s"
      then show "J (tr @ [NodeRun ''supervisor'']) (apply_update s (supervisor_node s))"
        by (rule sup)
    next
      fix s n tr u tr'
      assume "J tr s" and "run_node env tr n s = (Some u, tr')"
      then show "J (tr' @ [Returned n u]) (apply_update s u)" by (rule node)
    qed
  next
    case (Stop tr1 s1)
    have "J tr1 s1"
      using after Stop by blast
    moreover have "tr1 = tr' \<and> s1 = s'"
      using halted by (subst (asm) run_graph.simps) (simp add: Stop)
    ultimately show ?thesis by simp
  next
    case (Raise tr1)
    with halted show ?thesis
      by (subst (asm) run_graph.simps) simp
  qed
qed
section \<open>Runs that end in a clarification\<close>

subsection \<open>The plan that cites search results\<close>

lemma search_phrase_facts:
  "search_phrase \<noteq> []" "\<not> py_isspace (hd search_phrase)" "\<not> py_isspace (last search_phrase)"
  "py_lower search_phrase = search_phrase" "search_phrase = ''according to'' @ '' recent search results''"
  by code_simp+

lemma search_phrase_is_web_search:
  assumes "py_in search_phrase content"
  shows "detect_invalid_response (py_strip content) = (True, ''web_search'')"
proof -
  have "py_in search_phrase (py_strip content)"
    using assms search_phrase_facts(1-3) by (rule py_in_strip)
  then have "py_in (py_lower search_phrase) (py_lower (py_strip content))"
    unfolding py_lower_def by (rule py_in_map)
  then have "py_in (''according to'' @ '' recent search results'') (py_lower (py_strip content))"
    using search_phrase_facts(4,5) by simp
  then have "py_in ''according to'' (py_lower (py_strip content))"
    by (rule py_in_shorter)
  then show ?thesis
    by (simp add: detect_invalid_response_def any_in_def)
qed

lemma web_search_node:
  assumes "detect_invalid_response (py_strip content) = (True, ''web_search'')"
    and "llm env (length tr) (plan_messages (working_input s)) = Some content"
  shows "sql_agent_node env tr s =
           (Some web_search_update, tr @ [LlmCall (plan_messages (working_input s))])"
proof -
  have "''web_search'' \<noteq> ''gaming_confusion''" by simp
  then show ?thesis
    using assms
    by (simp add: sql_agent_node_def sql_after_plan_def web_search_update_def Let_def)
qed

lemma web_plan_has_phrase: "py_in search_phrase web_plan"
  by code_simp

subsection \<open>Two runs\<close>

lemma list_flags:
  "needs_sql (py_lower list_request)" "\<not> needs_viz (py_lower list_request)"
  "\<not> needs_email (py_lower list_request)" "\<not> needs_product (py_lower list_request)"
  "\<not> needs_strategy (py_lower list_request)"
  by code_simp+

lemma mail_flags:
  "needs_sql (py_lower mail_request)" "\<not> needs_viz (py_lower mail_request)"
  "needs_email (py_lower mail_request)" "\<not> needs_product (py_lower mail_request)"
  "\<not> needs_strategy (py_lower mail_request)"
  by code_simp+

lemma web_env_sql_node:
  "sql_agent_node web_env tr s =
     (Some web_search_update, tr @ [LlmCall (plan_messages (working_input s))])"
proof (rule web_search_node)
  show "detect_invalid_response (py_strip web_plan) = (True, ''web_search'')"
    using web_plan_has_phrase by (rule search_phrase_is_web_search)
  show "llm web_env (length tr) (plan_messages (working_input s)) = Some web_plan"
    by (simp add: web_env_def)
qed

lemma web_env_email_node:
  "leads_data s = None \<Longrightarrow> product_info s = None \<Longrightarrow>
   email_writer_node web_env tr s =
     (Some (no_update\<lparr>u_messages := [AIMessage (msg_email web_plan)],
                       u_email_draft := Some (Some web_plan),
                       u_is_complete := Some True\<rparr>),
      tr @ [LlmCall [SystemMessage (EMAIL_WRITER_PROMPT ''General prospect list''
                                      default_product_info),
                     HumanMessage (email_request (first_human (messages s)))]])"
  by (simp add: email_writer_node_def web_env_def Let_def)

lemmas graph_eval = run_graph.simps agent_phase_def run_node_def supervisor_node_def
  dispatch_def all_done_def no_update_def apply_update_def put_def route_from_supervisor_def
  route_after_sql_def initial_state_def Let_def

lemma list_run:
  "run_graph web_env [] (initial_state list_request None) =
     Halted [NodeRun ''supervisor'', NodeRun ''sql_agent'', LlmCall (plan_messages list_request),
             Returned ''sql_agent'' web_search_update, NodeRun ''supervisor'']
       ((initial_state list_request None)
          \<lparr>messages := [HumanMessage list_request, AIMessage msg_web_search],
           next_agent := Some ''COMPLETE'',
           needs_clarification := True,
           clarification_question := Some ''What database information do you need?'',
           clarification_options :=
             Some [''Show segment distribution'', ''List top customers'', ''Let me rephrase''],
           is_complete := True, current_step := 2, completed_agents := [''SQL_AGENT'']\<rparr>)"
  by (simp add: graph_eval list_flags web_env_sql_node web_search_update_def clarify_def
      working_input_def)

lemma mail_run:
  "nodes_run (trace_of (run_graph web_env [] (initial_state mail_request None)))
     = [''supervisor'', ''sql_agent'', ''supervisor'', ''email_writer'']
   \<and> halted_with needs_clarification (run_graph web_env [] (initial_state mail_request None))
   \<and> halted_with is_complete (run_graph web_env [] (initial_state mail_request None))
   \<and> map_option user_clarification
         (final_state (run_graph web_env [] (initial_state mail_request None))) = Some None
   \<and> map_option email_draft
         (final_state (run_graph web_env [] (initial_state mail_request None)))
       = Some (Some web_plan)"
  by (simp add: graph_eval mail_flags web_env_sql_node web_env_email_node web_search_update_def
      clarify_def working_input_def halted_with_def)



subsection \<open>The dicts of the pipeline\<close>

lemma clarify_clarifies: "opts \<noteq> [] \<Longrightarrow> clarifies (clarify content q opts)"
  by (simp add: clarifies_def clarify_def no_update_def)

lemma sql_execute_shape:
  "sql_execute env tr v plan q = (Some u, tr') \<Longrightarrow> clarifies u \<or> answers u"
  by (auto simp: sql_execute_def clarifies_def answers_def clarify_def no_update_def Let_def
      split: db_result.splits)

lemma sql_after_generate_shape:
  "sql_after_generate env tr v plan t = (Some u, tr') \<Longrightarrow> clarifies u \<or> answers u"
  by (auto simp: sql_after_generate_def clarifies_def clarify_def no_update_def Let_def
      dest: sql_execute_shape split: if_splits)

lemma sql_after_plan_shape:
  "sql_after_plan env tr v plan = (Some u, tr') \<Longrightarrow> clarifies u \<or> answers u"
  by (auto simp: sql_after_plan_def clarify_clarifies answers_def no_update_def Let_def
      dest: sql_after_generate_shape split: if_splits option.splits)

lemma sql_agent_node_shape:
  "sql_agent_node env tr s = (Some u, tr') \<Longrightarrow> clarifies u \<or> answers u"
  by (auto simp: sql_agent_node_def Let_def dest: sql_after_plan_shape split: option.splits)


lemma clarifies_applied:
  assumes "clarifies u"
  shows "needs_clarification (apply_update s u)" and "\<not> is_complete (apply_update s u)"
    and "\<exists>q opts. clarification_question (apply_update s u) = Some q
           \<and> clarification_options (apply_update s u) = Some opts \<and> opts \<noteq> []"
    and "leads_data s = None \<Longrightarrow> route_after_sql (apply_update s u) = ''supervisor''"
  using assms
  by (auto simp: clarifies_def apply_update_def put_def route_after_sql_def)

lemma answers_applied: "answers u \<Longrightarrow> \<not> needs_clarification (apply_update s u)"
  by (simp add: answers_def apply_update_def put_def)


subsection \<open>Who writes the clarification flag\<close>

lemma supervisor_keeps_clarification: "u_needs_clarification (supervisor_node s) = None"
proof -
  from supervisor_node_cases [of s] show ?thesis
  proof (elim disjE exE conjE)
    fix b v
    assume "supervisor_node s = (dispatch s b)\<lparr>u_needs_visualization := v\<rparr>"
    then show ?thesis
      by (simp add: dispatch_def no_update_def)
  next
    assume "supervisor_node s = all_done s"
    then show ?thesis
      by (simp add: all_done_def no_update_def)
  qed
qed

lemma dataviz_keeps_clarification:
  "dataviz_agent_node env tr s = (Some u, tr') \<Longrightarrow> u_needs_clarification u = None"
  by (auto simp: dataviz_agent_node_def dataviz_report_def finish_def no_update_def Let_def
      split: if_splits sum.splits option.splits prod.splits)

lemma email_keeps_clarification:
  "email_writer_node env tr s = (Some u, tr') \<Longrightarrow> u_needs_clarification u = None"
  by (auto simp: email_writer_node_def no_update_def Let_def split: option.splits)

lemma product_keeps_clarification:
  "product_expert_node env tr s = (Some u, tr') \<Longrightarrow> u_needs_clarification u = None"
  by (auto simp: product_expert_node_def no_update_def Let_def split: option.splits)

lemma segmentation_keeps_clarification:
  "segmentation_agent_node env tr s = (Some u, tr') \<Longrightarrow> u_needs_clarification u = None"
  by (auto simp: segmentation_agent_node_def no_update_def Let_def split: option.splits)

lemma other_nodes_keep_clarification:
  "n \<noteq> ''sql_agent'' \<Longrightarrow> run_node env tr n s = (Some u, tr') \<Longrightarrow>
     u_needs_clarification u = None"
  unfolding run_node_def
  by (auto dest: dataviz_keeps_clarification email_keeps_clarification
      product_keeps_clarification segmentation_keeps_clarification split: if_splits)

section \<open>The input of stage 1\<close>

lemma stage1_calls_quiet: "nodes_run evs = [] \<Longrightarrow> stage1_calls evs = []"
proof (induction evs)
  case Nil
  then show ?case by simp
next
  case (Cons e es)
  then show ?case by (cases e) simp_all
qed

lemma stage1_calls_returned: "stage1_calls (tr @ [Returned n u]) = stage1_calls tr"
  by (induction tr rule: stage1_calls.induct) simp_all

lemma stage1_calls_append_node:
  "stage1_calls (tr @ NodeRun n # es) = stage1_calls tr @ stage1_calls (NodeRun n # es)"
proof (induction tr)
  case Nil
  show ?case by simp
next
  case (Cons e tr)
  show ?case
  proof (cases e)
    case (NodeRun m)
    show ?thesis
    proof (cases tr)
      case Nil
      with NodeRun show ?thesis by simp
    next
      case tail: (Cons e' tr')
      with NodeRun Cons.IH show ?thesis by (cases e') simp_all
    qed
  qed (use Cons.IH in simp_all)
qed

lemma stage1_calls_node:
  assumes "nodes_run evs = []"
  shows "stage1_calls (NodeRun n # evs) =
           (case evs of
              LlmCall p # es \<Rightarrow> if n = ''sql_agent'' then [p] else []
            | _ \<Rightarrow> [])"
proof (cases evs)
  case Nil
  then show ?thesis by simp
next
  case (Cons e es)
  have "stage1_calls evs = []"
    using assms by (rule stage1_calls_quiet)
  with Cons show ?thesis
    by (cases e) simp_all
qed

lemma extends_refl: "extends tr tr"
  by (simp add: extends_def)

lemma extends_trans: "extends a b \<Longrightarrow> extends b c \<Longrightarrow> extends a c"
  by (auto simp: extends_def nodes_run_append)

lemma extends_call: "extends tr (tr @ [LlmCall p])"
  by (simp add: extends_def)

lemma extends_query: "extends tr (tr @ [DbQuery q])"
  by (simp add: extends_def)

lemma sql_execute_extends: "extends tr (snd (sql_execute env tr v plan q))"
  by (simp add: sql_execute_def Let_def extends_query split: db_result.splits)

lemma sql_after_generate_extends: "extends tr (snd (sql_after_generate env tr v plan t))"
  by (simp add: sql_after_generate_def Let_def extends_refl sql_execute_extends)

lemma sql_after_plan_extends: "extends tr (snd (sql_after_plan env tr v plan))"
  by (auto simp: sql_after_plan_def Let_def extends_refl extends_call
      intro: extends_trans [OF extends_call sql_after_generate_extends] split: option.splits)

lemma sql_agent_node_first_call:
  "\<exists>evs. snd (sql_agent_node env tr s) = tr @ LlmCall (plan_messages (working_input s)) # evs
      \<and> nodes_run evs = []"
proof -
  let ?p = "plan_messages (working_input s)"
  have "extends (tr @ [LlmCall ?p]) (snd (sql_agent_node env tr s))"
    by (simp add: sql_agent_node_def Let_def extends_refl sql_after_plan_extends
        split: option.splits)
  then show ?thesis
    by (auto simp: extends_def)
qed

lemma dataviz_agent_node_extends: "extends tr (snd (dataviz_agent_node env tr s))"
  by (simp add: dataviz_agent_node_def dataviz_report_def Let_def extends_refl extends_call
      split: option.splits sum.splits prod.splits)

lemma email_writer_node_extends: "extends tr (snd (email_writer_node env tr s))"
  by (simp add: email_writer_node_def Let_def extends_call split: option.splits)

lemma product_expert_node_extends: "extends tr (snd (product_expert_node env tr s))"
  by (simp add: product_expert_node_def Let_def extends_call split: option.splits)

lemma segmentation_agent_node_extends: "extends tr (snd (segmentation_agent_node env tr s))"
  by (simp add: segmentation_agent_node_def Let_def extends_call split: option.splits)

lemma stage1_calls_other:
  assumes "extends (tr @ [NodeRun n]) tr'" and "n \<noteq> ''sql_agent''"
  shows "stage1_calls tr' = stage1_calls tr"
proof -
  from assms(1) obtain evs where e: "tr' = tr @ NodeRun n # evs" and q: "nodes_run evs = []"
    by (auto simp: extends_def)
  have "stage1_calls (NodeRun n # evs) = []"
    using stage1_calls_node [OF q, of n] assms(2) by (simp split: list.splits event.splits)
  then show ?thesis
    by (simp add: e stage1_calls_append_node)
qed

lemma run_node_stage1_calls:
  "stage1_calls (snd (run_node env tr n s)) =
     stage1_calls tr @ (if n = ''sql_agent'' then [plan_messages (working_input s)] else [])"
proof (cases "n = ''sql_agent''")
  case True
  obtain evs where e: "snd (sql_agent_node env (tr @ [NodeRun n]) s)
      = (tr @ [NodeRun n]) @ LlmCall (plan_messages (working_input s)) # evs"
    and q: "nodes_run evs = []"
    using sql_agent_node_first_call by blast
  have "stage1_calls (snd (run_node env tr n s))
      = stage1_calls (tr @ NodeRun n # LlmCall (plan_messages (working_input s)) # evs)"
    using True e by (simp add: run_node_def)
  also have "\<dots> = stage1_calls tr @ [plan_messages (working_input s)]"
    using True q by (simp add: stage1_calls_append_node stage1_calls_quiet)
  finally show ?thesis
    using True by simp
next
  case False
  have "stage1_calls (snd (run_node env tr n s)) = stage1_calls tr"
  proof (cases "n \<in> set responders")
    case True
    with False have "extends (tr @ [NodeRun n]) (snd (run_node env tr n s))"
      by (auto simp: run_node_def responders_def dataviz_agent_node_extends
          email_writer_node_extends product_expert_node_extends
          segmentation_agent_node_extends)
    then show ?thesis
      using False by (rule stage1_calls_other)
  next
    case False
    then show ?thesis
      by (simp add: run_node_def responders_def)
  qed
  with False show ?thesis by simp
qed


lemma agent_phase_stage1_calls:
  "stage1_calls (phase_trace (agent_phase env tr s)) =
     stage1_calls tr @
     (if route_from_supervisor s = ''sql_agent'' then [plan_messages (working_input s)] else [])"
proof -
  let ?n = "route_from_supervisor s"
  show ?thesis
  proof (cases "?n = ''__end__''")
    case True
    then show ?thesis by (simp add: agent_phase_def)
  next
    case False
    obtain r1 tr1 where one: "run_node env tr ?n s = (r1, tr1)"
      by (cases "run_node env tr ?n s")
    have tr1: "stage1_calls tr1 = stage1_calls tr @
        (if ?n = ''sql_agent'' then [plan_messages (working_input s)] else [])"
      using run_node_stage1_calls [of env tr ?n s] one by simp
    show ?thesis
    proof (cases r1)
      case None
      with False one tr1 show ?thesis by (simp add: agent_phase_def)
    next
      case (Some u)
      let ?tr1 = "tr1 @ [Returned ?n u]"
      obtain r2 tr2 where two: "run_node env ?tr1 ''dataviz_agent'' (apply_update s u) = (r2, tr2)"
        by (cases "run_node env ?tr1 ''dataviz_agent'' (apply_update s u)")
      have tr2: "stage1_calls tr2 = stage1_calls tr1"
        using run_node_stage1_calls [of env ?tr1 "''dataviz_agent''" "apply_update s u"] two
        by (simp add: stage1_calls_returned)
      from False one Some tr1 two tr2 show ?thesis
        by (cases r2) (auto simp: agent_phase_def Let_def stage1_calls_returned)
    qed
  qed
qed

text \<open>
  The working input of the pipeline stays what it was at the start of the run: the log
  only grows behind the first user message, and no node writes \<open>user_clarification\<close>.
\<close>

lemma asks_applied: "asks w s \<Longrightarrow> asks w (apply_update s u)"
  by (simp add: asks_def working_input_def apply_update_def first_human_append)

lemma run_graph_stage1_calls:
  assumes "asks w s"
  shows "\<exists>k. stage1_calls (trace_of (run_graph env tr s))
            = stage1_calls tr @ replicate k (plan_messages w)
          \<and> sql_runs (trace_of (run_graph env tr s)) = sql_runs tr + k"
  using assms
proof (induction env tr s rule: run_graph.induct)
  case (1 env tr s)
  let ?s1 = "apply_update s (supervisor_node s)"
  let ?tr1 = "tr @ [NodeRun ''supervisor'']"
  let ?ph = "agent_phase env ?tr1 ?s1"
  let ?k = "if route_from_supervisor ?s1 = ''sql_agent'' then 1 else 0 :: nat"
  have a1: "asks w ?s1"
    using "1.prems" by (rule asks_applied)
  then have w1: "working_input ?s1 = w"
    by (simp add: asks_def)
  have calls: "stage1_calls (phase_trace ?ph) = stage1_calls tr @ replicate ?k (plan_messages w)"
    using agent_phase_stage1_calls [of env ?tr1 ?s1] w1
    by (simp add: stage1_calls_append_node [where es = "[]", simplified])
  have runs: "sql_runs (phase_trace ?ph) = sql_runs tr + ?k"
    using agent_phase_sql_runs [of env ?tr1 ?s1]
    by (simp add: sql_runs_def nodes_run_append)
  show ?case
  proof (cases ?ph)
    case (Back tr' s')
    have "asks w s'"
    proof (rule agent_phase_invariant [where I = "asks w" and env = env])
      show "asks w ?s1" by (rule a1)
      show "?ph = Back tr' s' \<or> ?ph = Stop tr' s'" using Back by simp
    next
      fix s :: AgentState and n tr u tr'
      assume "asks w s"
      then show "asks w (apply_update s u)" by (rule asks_applied)
    qed
    from "1.IH" [OF Back this] obtain k
      where k: "stage1_calls (trace_of (run_graph env tr' s'))
                  = stage1_calls tr' @ replicate k (plan_messages w)"
        "sql_runs (trace_of (run_graph env tr' s')) = sql_runs tr' + k"
      by blast
    have eq: "run_graph env tr s = run_graph env tr' s'"
      by (subst run_graph.simps) (simp add: Back)
    have "stage1_calls (trace_of (run_graph env tr s))
        = stage1_calls tr @ replicate (?k + k) (plan_messages w)"
      using k(1) calls Back by (simp add: eq replicate_add)
    moreover have "sql_runs (trace_of (run_graph env tr s)) = sql_runs tr + (?k + k)"
      using k(2) runs Back by (simp add: eq)
    ultimately show ?thesis by blast
  next
    case (Stop tr' s')
    have eq: "run_graph env tr s = Halted tr' s'"
      by (subst run_graph.simps) (simp add: Stop)
    from calls runs Stop show ?thesis
      unfolding eq by (intro exI [of _ ?k]) simp
  next
    case (Raise tr')
    have eq: "run_graph env tr s = Crashed tr'"
      by (subst run_graph.simps) (simp add: Raise)
    from calls runs Raise show ?thesis
      unfolding eq by (intro exI [of _ ?k]) simp
  qed
qed


lemma resumed_run:
  "trace_of (run_graph web_env [] (initial_state list_request (Some first_option)))
     = [NodeRun ''supervisor'', NodeRun ''sql_agent'',
        LlmCall (plan_messages (list_request @ '' (User clarified: '' @ first_option @ '')'')),
        Returned ''sql_agent'' web_search_update, NodeRun ''supervisor'']"
  by (simp add: graph_eval list_flags web_env_sql_node web_search_update_def clarify_def
      working_input_def clarified_def first_option_def)

section \<open>The state in which a run halts\<close>

subsection \<open>The dicts of the pipeline in the log\<close>

lemma sql_dicts_append: "sql_dicts (a @ b) = sql_dicts a @ sql_dicts b"
  by (induction a rule: sql_dicts.induct) simp_all

lemma sql_execute_dicts: "sql_dicts (snd (sql_execute env tr v plan q)) = sql_dicts tr"
  by (simp add: sql_execute_def Let_def sql_dicts_append split: db_result.splits)

lemma sql_after_generate_dicts:
  "sql_dicts (snd (sql_after_generate env tr v plan t)) = sql_dicts tr"
  by (simp add: sql_after_generate_def Let_def sql_execute_dicts)

lemma sql_after_plan_dicts: "sql_dicts (snd (sql_after_plan env tr v plan)) = sql_dicts tr"
  by (simp add: sql_after_plan_def Let_def sql_after_generate_dicts sql_dicts_append
      split: option.splits)

lemma sql_agent_node_dicts: "sql_dicts (snd (sql_agent_node env tr s)) = sql_dicts tr"
  by (simp add: sql_agent_node_def Let_def sql_after_plan_dicts sql_dicts_append
      split: option.splits)

lemma dataviz_agent_node_dicts: "sql_dicts (snd (dataviz_agent_node env tr s)) = sql_dicts tr"
  by (simp add: dataviz_agent_node_def dataviz_report_def Let_def sql_dicts_append
      split: option.splits sum.splits prod.splits)

lemma email_writer_node_dicts: "sql_dicts (snd (email_writer_node env tr s)) = sql_dicts tr"
  by (simp add: email_writer_node_def Let_def sql_dicts_append split: option.splits)

lemma product_expert_node_dicts: "sql_dicts (snd (product_expert_node env tr s)) = sql_dicts tr"
  by (simp add: product_expert_node_def Let_def sql_dicts_append split: option.splits)

lemma segmentation_agent_node_dicts:
  "sql_dicts (snd (segmentation_agent_node env tr s)) = sql_dicts tr"
  by (simp add: segmentation_agent_node_def Let_def sql_dicts_append split: option.splits)

lemma run_node_dicts: "sql_dicts (snd (run_node env tr n s)) = sql_dicts tr"
  by (simp add: run_node_def sql_dicts_append sql_agent_node_dicts
      dataviz_agent_node_dicts email_writer_node_dicts product_expert_node_dicts
      segmentation_agent_node_dicts)

lemma run_node_sql_runs:
  "sql_runs (snd (run_node env tr n s)) = sql_runs tr + (if n = ''sql_agent'' then 1 else 0)"
  by (simp add: sql_runs_def run_node_nodes responders_def)

text \<open>
  The clarification flag follows the last dict of the pipeline in the log, and the log
  holds no more dicts of the pipeline than runs of its node.
\<close>

lemma clarification_log:
  assumes "run_graph env [] (initial_state request answer) = Halted tr' s'"
  shows "(needs_clarification s' \<longleftrightarrow> last_asks (sql_dicts tr'))
     \<and> length (sql_dicts tr') \<le> sql_runs tr'"
proof (rule run_graph_log_invariant
    [where J = "\<lambda>tr s. (needs_clarification s \<longleftrightarrow> last_asks (sql_dicts tr))
                  \<and> length (sql_dicts tr) \<le> sql_runs tr", OF _ _ _ assms])
  show "(needs_clarification (initial_state request answer) \<longleftrightarrow> last_asks (sql_dicts []))
     \<and> length (sql_dicts []) \<le> sql_runs []"
    by (simp add: initial_state_def last_asks_def)
next
  fix tr and s :: AgentState
  assume "(needs_clarification s \<longleftrightarrow> last_asks (sql_dicts tr))
     \<and> length (sql_dicts tr) \<le> sql_runs tr"
  then show "(needs_clarification (apply_update s (supervisor_node s))
        \<longleftrightarrow> last_asks (sql_dicts (tr @ [NodeRun ''supervisor''])))
     \<and> length (sql_dicts (tr @ [NodeRun ''supervisor'']))
        \<le> sql_runs (tr @ [NodeRun ''supervisor''])"
    by (simp add: apply_update_def put_def supervisor_keeps_clarification sql_dicts_append
        sql_runs_def nodes_run_append)
next
  fix s :: AgentState and n tr u tr'
  assume j: "(needs_clarification s \<longleftrightarrow> last_asks (sql_dicts tr))
     \<and> length (sql_dicts tr) \<le> sql_runs tr"
    and r: "run_node env tr n s = (Some u, tr')"
  have d: "sql_dicts tr' = sql_dicts tr"
    using run_node_dicts [of env tr n s] r by simp
  have k: "sql_runs tr' = sql_runs tr + (if n = ''sql_agent'' then 1 else 0)"
    using run_node_sql_runs [of env tr n s] r by simp
  show "(needs_clarification (apply_update s u)
        \<longleftrightarrow> last_asks (sql_dicts (tr' @ [Returned n u])))
     \<and> length (sql_dicts (tr' @ [Returned n u])) \<le> sql_runs (tr' @ [Returned n u])"
  proof (cases "n = ''sql_agent''")
    case True
    with r have "sql_agent_node env (tr @ [NodeRun n]) s = (Some u, tr')"
      by (simp add: run_node_def)
    then have "clarifies u \<or> answers u"
      by (rule sql_agent_node_shape)
    then have "needs_clarification (apply_update s u) \<longleftrightarrow> u_needs_clarification u = Some True"
      by (auto simp: clarifies_def answers_def apply_update_def put_def)
    with True j d k show ?thesis
      by (simp add: sql_dicts_append last_asks_def sql_runs_def nodes_run_append)
  next
    case False
    then have "u_needs_clarification u = None"
      using r by (rule other_nodes_keep_clarification)
    then have "needs_clarification (apply_update s u) = needs_clarification s"
      by (simp add: apply_update_def put_def)
    with False j d k show ?thesis
      by (simp add: sql_dicts_append sql_runs_def nodes_run_append)
  qed
qed

subsection \<open>Every run that halts is complete\<close>

text \<open>
  Every decision that dispatches a responder records an identifier that was not yet in
  \<open>completed_agents\<close>, so that the counter stays below the ceiling in a run that starts
  from an initial state: a run halts after the Content responder or after the decision
  that the turn is complete, and either sets \<open>is_complete\<close>.
\<close>

lemma agents_bound:
  assumes "distinct xs" and "set xs \<subseteq> set agents"
  shows "length xs \<le> 5"
proof -
  have "length xs = card (set xs)"
    using assms(1) by (simp add: distinct_card)
  also have "\<dots> \<le> card (set agents)"
    using assms(2) by (intro card_mono) simp_all
  also have "\<dots> \<le> length agents"
    by (rule card_length)
  finally show ?thesis
    by (simp add: agents_def)
qed

lemma email_writer_completes:
  "email_writer_node env tr s = (Some u, tr') \<Longrightarrow> u_is_complete u = Some True"
  by (auto simp: email_writer_node_def no_update_def Let_def split: option.splits)

lemma route_dispatched:
  assumes "next_agent s = Some a" and "a \<in> set agents" and "current_step s \<le> 8"
  shows "route_from_supervisor s \<noteq> ''__end__''"
    and "route_from_supervisor s = ''email_writer'' \<longleftrightarrow> a = ''EMAIL_WRITER''"
  using assms by (auto simp: route_from_supervisor_def agents_def)

lemma agent_phase_Stop_dispatched:
  assumes ph: "agent_phase env tr s = Stop tr' s'"
    and a: "next_agent s = Some a" "a \<in> set agents" "current_step s \<le> 8"
  shows "is_complete s'"
proof -
  let ?n = "route_from_supervisor s"
  have n: "?n \<noteq> ''__end__''"
    using a by (rule route_dispatched(1))
  obtain r1 tr1 where one: "run_node env tr ?n s = (r1, tr1)"
    by (cases "run_node env tr ?n s")
  show ?thesis
  proof (cases r1)
    case None
    with n one ph show ?thesis by (simp add: agent_phase_def)
  next
    case (Some u)
    have e: "?n = ''email_writer'' \<and> s' = apply_update s u"
      using n one Some ph
      by (auto simp: agent_phase_def Let_def split: if_splits prod.splits option.splits)
    with one Some have "email_writer_node env (tr @ [NodeRun ?n]) s = (Some u, tr1)"
      by (simp add: run_node_def)
    then have "u_is_complete u = Some True"
      by (rule email_writer_completes)
    with e show ?thesis
      by (simp add: apply_update_def put_def)
  qed
qed

lemma agent_phase_Stop_all_done:
  "agent_phase env tr (apply_update s (all_done s)) = Stop tr' s' \<Longrightarrow> is_complete s'"
  by (auto simp: agent_phase_def route_from_supervisor_def apply_update_def put_def all_done_def
      no_update_def Let_def split: if_splits)

lemma agent_phase_Back_all_done:
  "agent_phase env tr (apply_update s (all_done s)) \<noteq> Back tr' s'"
  by (auto simp: agent_phase_def route_from_supervisor_def apply_update_def put_def all_done_def
      no_update_def Let_def split: if_splits)

lemma run_graph_complete:
  assumes "distinct (completed_agents s)" and "set (completed_agents s) \<subseteq> set agents"
    and "current_step s \<le> int (length (completed_agents s))"
    and "run_graph env tr s = Halted tr' s'"
  shows "is_complete s'"
  using assms
proof (induction env tr s rule: run_graph.induct)
  case (1 env tr s)
  let ?s1 = "apply_update s (supervisor_node s)"
  let ?tr1 = "tr @ [NodeRun ''supervisor'']"
  let ?ph = "agent_phase env ?tr1 ?s1"
  note d = "1.prems"(1) and sub = "1.prems"(2) and step = "1.prems"(3) and halted = "1.prems"(4)
  have len: "length (completed_agents s) \<le> 5"
    using d sub by (rule agents_bound)
  from supervisor_node_cases [of s] show ?case
  proof (elim disjE exE conjE)
    fix a v
    assume a: "a \<in> set agents" "a \<notin> set (completed_agents s)"
      and u: "supervisor_node s = (dispatch s a)\<lparr>u_needs_visualization := v\<rparr>"
    have s1: "next_agent ?s1 = Some a" "current_step ?s1 = current_step s + 1"
      "completed_agents ?s1 = completed_agents s @ [a]"
      by (simp_all add: u apply_update_def put_def dispatch_def no_update_def)
    have le: "current_step ?s1 \<le> 8"
      using s1(2) step len by simp
    show ?thesis
    proof (cases ?ph)
      case (Back tr1 s2)
      have keep: "current_step s2 = current_step ?s1" "completed_agents s2 = completed_agents ?s1"
        using agent_phase_Back [OF Back] by simp_all
      show ?thesis
      proof (rule "1.IH" [OF Back])
        show "distinct (completed_agents s2)"
          using keep s1 d a by simp
        show "set (completed_agents s2) \<subseteq> set agents"
          using keep s1 sub a by simp
        show "current_step s2 \<le> int (length (completed_agents s2))"
          using keep s1 step by simp
        show "run_graph env tr1 s2 = Halted tr' s'"
          using halted by (subst (asm) run_graph.simps) (simp add: Back)
      qed
    next
      case (Stop tr1 s2)
      have "is_complete s2"
        using Stop s1(1) a(1) le by (rule agent_phase_Stop_dispatched)
      moreover have "s2 = s'"
        using halted by (subst (asm) run_graph.simps) (simp add: Stop)
      ultimately show ?thesis by simp
    next
      case (Raise tr1)
      with halted show ?thesis
        by (subst (asm) run_graph.simps) simp
    qed
  next
    assume u: "supervisor_node s = all_done s"
    show ?thesis
    proof (cases ?ph)
      case (Back tr1 s2)
      with agent_phase_Back_all_done [of env ?tr1 s tr1 s2] u show ?thesis by simp
    next
      case (Stop tr1 s2)
      then have "is_complete s2"
        using agent_phase_Stop_all_done [of env ?tr1 s tr1 s2] u by simp
      moreover have "s2 = s'"
        using halted by (subst (asm) run_graph.simps) (simp add: Stop)
      ultimately show ?thesis by simp
    next
      case (Raise tr1)
      with halted show ?thesis
        by (subst (asm) run_graph.simps) simp
    qed
  qed
qed

lemma halted_complete:
  "run_graph env [] (initial_state request answer) = Halted tr s \<Longrightarrow> is_complete s"
  by (rule run_graph_complete [of "initial_state request answer" env "[]" tr s])
     (simp_all add: initial_state_def)

lemma halted_sql_dicts:
  assumes "run_graph env [] (initial_state request answer) = Halted tr s"
  shows "length (sql_dicts tr) \<le> 1"
proof -
  have "sql_runs (trace_of (run_graph env [] (initial_state request answer))) \<le> 1"
    using run_graph_sql_runs [of env "[]" "initial_state request answer"]
    by (simp add: sql_runs_def initial_state_def)
  with assms clarification_log [OF assms] show ?thesis by simp
qed

lemma last_asks_single:
  "length us \<le> 1 \<Longrightarrow> last_asks us = list_ex (\<lambda>u. u_needs_clarification u = Some True) us"
  by (cases us) (auto simp: last_asks_def)
section \<open>Step count and the ceiling of eight\<close>

lemma route_above_ceiling: "8 < current_step t \<Longrightarrow> route_from_supervisor t = ''__end__''"
  by (simp add: route_from_supervisor_def)

lemma agent_phase_above_ceiling: "8 < current_step t \<Longrightarrow> agent_phase env tr t = Stop tr t"
  by (simp add: agent_phase_def route_above_ceiling)

lemma run_graph_last_decision:
  assumes "8 \<le> current_step s"
  shows "run_graph env tr s =
           Halted (tr @ [NodeRun ''supervisor'']) (apply_update s (supervisor_node s))"
proof -
  have "8 < current_step (apply_update s (supervisor_node s))"
    using assms by (simp add: supervisor_step_applied)
  then have "agent_phase env (tr @ [NodeRun ''supervisor'']) (apply_update s (supervisor_node s))
      = Stop (tr @ [NodeRun ''supervisor'']) (apply_update s (supervisor_node s))"
    by (rule agent_phase_above_ceiling)
  then show ?thesis
    by (subst run_graph.simps) simp
qed

text \<open>
  Claim C2. Every decision of the Orchestrator returns \<open>current_step + 1\<close>, so the
  counter of the state grows by exactly one. In every state whose counter is above 8 the
  edge out of the Orchestrator gives the terminal signal and no responder runs, whatever
  \<open>completed_agents\<close> and \<open>next_agent\<close> hold; hence a decision taken at 8 or above
  is the last one of the run.
\<close>

theorem step_count_increment_and_ceiling:
  "u_current_step (supervisor_node s) = Some (current_step s + 1)
   \<and> current_step (apply_update s (supervisor_node s)) = current_step s + 1
   \<and> (8 < current_step t \<longrightarrow>
        route_from_supervisor t = ''__end__'' \<and> agent_phase env tr t = Stop tr t)
   \<and> (8 \<le> current_step s \<longrightarrow>
        run_graph env tr s =
          Halted (tr @ [NodeRun ''supervisor'']) (apply_update s (supervisor_node s)))"
proof (intro conjI impI)
  show "u_current_step (supervisor_node s) = Some (current_step s + 1)"
    by (rule supervisor_node_step)
  show "current_step (apply_update s (supervisor_node s)) = current_step s + 1"
    by (rule supervisor_step_applied)
next
  assume "8 < current_step t"
  then show "route_from_supervisor t = ''__end__''" and "agent_phase env tr t = Stop tr t"
    by (rule route_above_ceiling, rule agent_phase_above_ceiling)
next
  assume "8 \<le> current_step s"
  then show "run_graph env tr s =
          Halted (tr @ [NodeRun ''supervisor'']) (apply_update s (supervisor_node s))"
    by (rule run_graph_last_decision)
qed

theorem step_count_increment_and_ceiling_witness:
  "8 < current_step over_budget
   \<and> next_agent over_budget = Some ''EMAIL_WRITER''
   \<and> route_from_supervisor over_budget = ''__end__''
   \<and> agent_phase quiet_env [] over_budget = Stop [] over_budget
   \<and> current_step (apply_update over_budget (supervisor_node over_budget)) = 10
   \<and> run_graph quiet_env [] over_budget =
        Halted [NodeRun ''supervisor''] (apply_update over_budget (supervisor_node over_budget))"
  using step_count_increment_and_ceiling [of over_budget over_budget quiet_env "[]"]
  by (simp add: over_budget_def initial_state_def)

section \<open>What the routing decision reads\<close>

text \<open>
  Claim C9. The dict the Orchestrator returns is a function of the first user message of
  the log, of \<open>completed_agents\<close>, of \<open>current_step\<close> and of whether \<open>leads_data\<close>
  is present (neither \<open>None\<close> nor empty): two states that agree on these get the same
  dict. Messages appended to a log that already holds a user message do not change it.
\<close>

theorem routing_reads_first_request_only:
  "(first_human (messages s) = first_human (messages t)
      \<and> completed_agents s = completed_agents t
      \<and> current_step s = current_step t
      \<and> truthy (leads_data s) = truthy (leads_data t)
      \<longrightarrow> supervisor_node s = supervisor_node t)
   \<and> (list_ex is_human (messages s)
      \<longrightarrow> supervisor_node (s\<lparr>messages := messages s @ later\<rparr>) = supervisor_node s)"
proof (intro conjI impI)
  assume "first_human (messages s) = first_human (messages t)
      \<and> completed_agents s = completed_agents t
      \<and> current_step s = current_step t
      \<and> truthy (leads_data s) = truthy (leads_data t)"
  then show "supervisor_node s = supervisor_node t"
    by (intro supervisor_node_cong) simp_all
next
  assume "list_ex is_human (messages s)"
  then have "first_human (messages (s\<lparr>messages := messages s @ later\<rparr>))
      = first_human (messages s)"
    by (simp add: first_human_append)
  then show "supervisor_node (s\<lparr>messages := messages s @ later\<rparr>) = supervisor_node s"
    by (intro supervisor_node_cong) simp_all
qed


theorem routing_reads_first_request_only_witness:
  "first_human (messages (initial_state ''show top customers'' None))
     = first_human (messages asked_twice)
   \<and> supervisor_node (initial_state ''show top customers'' None) = supervisor_node asked_twice
   \<and> list_ex is_human (messages asked_twice)
   \<and> supervisor_node
        (asked_twice\<lparr>messages := messages asked_twice @ [HumanMessage ''write an email'']\<rparr>)
      = supervisor_node asked_twice"
  using routing_reads_first_request_only
          [of "initial_state ''show top customers'' None" asked_twice]
        routing_reads_first_request_only
          [of asked_twice asked_twice "[HumanMessage ''write an email'']"]
  by (simp add: asked_twice_def initial_state_def)
section \<open>The one writer of the tabular result\<close>

lemma supervisor_keeps_leads_data: "u_leads_data (supervisor_node s) = None"
proof -
  from supervisor_node_cases [of s] show ?thesis
  proof (elim disjE exE conjE)
    fix b v
    assume "supervisor_node s = (dispatch s b)\<lparr>u_needs_visualization := v\<rparr>"
    then show ?thesis
      by (simp add: dispatch_def no_update_def)
  next
    assume "supervisor_node s = all_done s"
    then show ?thesis
      by (simp add: all_done_def no_update_def)
  qed
qed

lemma dataviz_keeps_leads_data:
  "dataviz_agent_node env tr s = (Some u, tr') \<Longrightarrow> u_leads_data u = None"
  by (auto simp: dataviz_agent_node_def dataviz_report_def finish_def no_update_def Let_def
      split: if_splits sum.splits option.splits prod.splits)

lemma email_keeps_leads_data:
  "email_writer_node env tr s = (Some u, tr') \<Longrightarrow> u_leads_data u = None"
  by (auto simp: email_writer_node_def no_update_def Let_def split: option.splits)

lemma product_keeps_leads_data:
  "product_expert_node env tr s = (Some u, tr') \<Longrightarrow> u_leads_data u = None"
  by (auto simp: product_expert_node_def no_update_def Let_def split: option.splits)

lemma segmentation_keeps_leads_data:
  "segmentation_agent_node env tr s = (Some u, tr') \<Longrightarrow> u_leads_data u = None"
  by (auto simp: segmentation_agent_node_def no_update_def Let_def split: option.splits)

lemma other_nodes_keep_leads_data:
  "n \<noteq> ''sql_agent'' \<Longrightarrow> run_node env tr n s = (Some u, tr') \<Longrightarrow> u_leads_data u = None"
  unfolding run_node_def
  by (auto dest: dataviz_keeps_leads_data email_keeps_leads_data product_keeps_leads_data
      segmentation_keeps_leads_data split: if_splits)

text \<open>
  Claim C8. The dict of the Orchestrator and the dict of every responder other than the
  query pipeline (Analytics, Segment Strategist, Catalog, Content) hold no key
  \<open>leads_data\<close>, so merging them leaves \<open>leads_data\<close> as it was; and in every run of
  the graph from the initial state of a turn the query pipeline, the only writer, runs at
  most once.
\<close>

theorem leads_data_single_writer:
  "u_leads_data (supervisor_node s) = None
   \<and> leads_data (apply_update s (supervisor_node s)) = leads_data s
   \<and> (n \<noteq> ''sql_agent'' \<and> run_node env tr n s = (Some u, tr')
        \<longrightarrow> u_leads_data u = None \<and> leads_data (apply_update s u) = leads_data s)
   \<and> sql_runs (trace_of (run_graph env [] (initial_state request answer))) \<le> 1"
proof (intro conjI impI)
  show "u_leads_data (supervisor_node s) = None"
    by (rule supervisor_keeps_leads_data)
  then show "leads_data (apply_update s (supervisor_node s)) = leads_data s"
    by (simp add: apply_update_def put_def)
next
  assume a: "n \<noteq> ''sql_agent'' \<and> run_node env tr n s = (Some u, tr')"
  then show "u_leads_data u = None"
    using other_nodes_keep_leads_data by blast
  then show "leads_data (apply_update s u) = leads_data s"
    by (simp add: apply_update_def put_def)
next
  have "sql_runs (trace_of (run_graph env [] (initial_state request answer)))
      \<le> sql_runs [] + (if ''SQL_AGENT'' \<in> set (completed_agents (initial_state request answer))
                        then 0 else 1)"
    by (rule run_graph_sql_runs)
  then show "sql_runs (trace_of (run_graph env [] (initial_state request answer))) \<le> 1"
    by (simp add: sql_runs_def initial_state_def)
qed

theorem leads_data_single_writer_witness:
  "''dataviz_agent'' \<noteq> ''sql_agent''
   \<and> run_node quiet_env [] ''dataviz_agent'' (initial_state ''pie chart'' None)
       = (Some (finish msg_no_data), [NodeRun ''dataviz_agent''])
   \<and> u_leads_data (finish msg_no_data) = None
   \<and> leads_data (apply_update (initial_state ''pie chart'' None) (finish msg_no_data))
       = leads_data (initial_state ''pie chart'' None)
   \<and> sql_runs (trace_of (run_graph quiet_env [] (initial_state ''pie chart'' None))) \<le> 1"
  using leads_data_single_writer
          [where n = "''dataviz_agent''" and env = quiet_env and tr = "[]"
             and s = "initial_state ''pie chart'' None" and u = "finish msg_no_data"
             and tr' = "[NodeRun ''dataviz_agent'']" and request = "''pie chart''"
             and answer = None]
  by (simp add: run_node_def dataviz_agent_node_def initial_state_def)
section \<open>How often a responder runs\<close>

subsection \<open>The request for a pie chart\<close>

lemma pie_flags:
  "needs_sql (py_lower pie_request)" "needs_viz (py_lower pie_request)"
  "sql_needs_viz (py_lower pie_request)" "\<not> needs_email (py_lower pie_request)"
  "\<not> needs_product (py_lower pie_request)" "\<not> needs_strategy (py_lower pie_request)"
  by code_simp+

lemma pie_plan_ok:
  "py_strip pie_plan = pie_plan" "detect_invalid_response pie_plan = (False, [])"
  "\<not> startswith (py_upper pie_plan) ''CANNOT_ANSWER''"
  by code_simp+

lemma pie_sql_ok:
  "py_strip pie_sql = pie_sql" "detect_invalid_response pie_sql = (False, [])"
  "extract_sql pie_sql = pie_sql" "validate_sql pie_sql = (True, [])"
  by code_simp+

lemma pie_sql_node:
  "first_human (messages s) = pie_request \<Longrightarrow> user_clarification s = None \<Longrightarrow> length tr = 2 \<Longrightarrow>
   sql_agent_node pie_env tr s =
     (Some (no_update\<lparr>u_messages := [AIMessage (msg_result (result_rows pie_plan pie_sql 1 ''| Segment |''))],
                               u_sql_plan := Some (Some pie_plan),
                               u_sql_query := Some (Some pie_sql),
                               u_leads_data := Some (Some ''[{}]''),
                               u_needs_visualization := Some True,
                               u_needs_clarification := Some False,
                               u_is_complete := Some False\<rparr>),
      tr @ [LlmCall (plan_messages pie_request), LlmCall (generate_messages pie_plan), DbQuery pie_sql])"
  by (simp add: sql_agent_node_def sql_after_plan_def sql_after_generate_def sql_execute_def
      working_input_def pie_flags pie_plan_ok pie_sql_ok pie_env_def quiet_env_def Let_def)

lemma pie_dataviz_node:
  "leads_data s = Some ''[{}]'' \<Longrightarrow> 3 < length tr \<Longrightarrow>
   dataviz_agent_node pie_env tr s =
     (Some (finish (''[Data Viz Agent]\<newline>'' @
              py_join ''\<newline>'' [''- Total records: 1'', insights ''Champions lead.''])),
      tr @ [LlmCall [SystemMessage (DATAVIZ_PROMPT ''[Segment]'' ''Records: 1''
                                      (first_human (messages s))),
                     HumanMessage ''Provide your analysis.'']])"
  by (simp add: dataviz_agent_node_def dataviz_report_def pie_env_def quiet_env_def Let_def)

text \<open>
  Claim C7. No identifier appears twice in \<open>completed_agents\<close> (lemma
  \<open>completed_agents_distinct\<close>), but a responder node can run twice in one turn: the edge
  out of the query pipeline hands over to Analytics when a chart is asked for and
  \<open>DATAVIZ_AGENT\<close> is not in \<open>completed_agents\<close>, and that path does not record
  \<open>DATAVIZ_AGENT\<close>; the next decision of the Orchestrator finds the same condition and
  dispatches Analytics again. For the request below the Analytics node runs twice.
\<close>

theorem analytics_runs_twice:
  "nodes_run (trace_of (run_graph pie_env [] (initial_state pie_request None)))
     = [''supervisor'', ''sql_agent'', ''dataviz_agent'', ''supervisor'', ''dataviz_agent'',
        ''supervisor'']
   \<and> count_list (nodes_run (trace_of (run_graph pie_env [] (initial_state pie_request None))))
         ''dataviz_agent'' = 2
   \<and> map_option completed_agents
         (final_state (run_graph pie_env [] (initial_state pie_request None)))
       = Some [''SQL_AGENT'', ''DATAVIZ_AGENT'']"
  by (simp add: run_graph.simps agent_phase_def run_node_def supervisor_node_def dispatch_def
      all_done_def no_update_def apply_update_def put_def route_from_supervisor_def
      route_after_sql_def pie_flags pie_sql_node pie_dataviz_node initial_state_def Let_def
      finish_def)
section \<open>A plan that cites search results\<close>

text \<open>
  Claim C3. When the plan text that the model returns in stage 1 contains the phrase
  \<open>according to recent search results\<close>, the sanity check classifies the stripped plan
  as \<open>web_search\<close>, and the pipeline returns the clarification dict: merged into the
  state it gives \<open>needs_clarification\<close> true, three options and \<open>is_complete\<close> false.
  The log of events grows by the call for the plan alone: no query is generated and none
  is executed, and \<open>sql_query\<close> and \<open>leads_data\<close> stay as they were.
\<close>

theorem web_search_plan_suspends:
  "py_in search_phrase content
   \<and> llm env (length tr) (plan_messages (working_input s)) = Some content
   \<longrightarrow> detect_invalid_response (py_strip content) = (True, ''web_search'')
     \<and> sql_agent_node env tr s =
         (Some web_search_update, tr @ [LlmCall (plan_messages (working_input s))])
     \<and> needs_clarification (apply_update s web_search_update)
     \<and> clarification_options (apply_update s web_search_update)
         = Some [''Show segment distribution'', ''List top customers'', ''Let me rephrase'']
     \<and> \<not> is_complete (apply_update s web_search_update)
     \<and> sql_query (apply_update s web_search_update) = sql_query s
     \<and> leads_data (apply_update s web_search_update) = leads_data s"
proof (intro impI, elim conjE)
  assume c: "py_in search_phrase content"
    and l: "llm env (length tr) (plan_messages (working_input s)) = Some content"
  have d: "detect_invalid_response (py_strip content) = (True, ''web_search'')"
    using c by (rule search_phrase_is_web_search)
  have n: "sql_agent_node env tr s =
         (Some web_search_update, tr @ [LlmCall (plan_messages (working_input s))])"
    using d l by (rule web_search_node)
  have u: "needs_clarification (apply_update s web_search_update)"
    "clarification_options (apply_update s web_search_update)
         = Some [''Show segment distribution'', ''List top customers'', ''Let me rephrase'']"
    "\<not> is_complete (apply_update s web_search_update)"
    "sql_query (apply_update s web_search_update) = sql_query s"
    "leads_data (apply_update s web_search_update) = leads_data s"
    by (simp_all add: web_search_update_def clarify_def no_update_def apply_update_def put_def)
  from d n u show "detect_invalid_response (py_strip content) = (True, ''web_search'')
     \<and> sql_agent_node env tr s =
         (Some web_search_update, tr @ [LlmCall (plan_messages (working_input s))])
     \<and> needs_clarification (apply_update s web_search_update)
     \<and> clarification_options (apply_update s web_search_update)
         = Some [''Show segment distribution'', ''List top customers'', ''Let me rephrase'']
     \<and> \<not> is_complete (apply_update s web_search_update)
     \<and> sql_query (apply_update s web_search_update) = sql_query s
     \<and> leads_data (apply_update s web_search_update) = leads_data s"
    by simp
qed

theorem web_search_plan_suspends_witness:
  "py_in search_phrase web_plan
   \<and> llm web_env 0 (plan_messages ''show top customers'') = Some web_plan
   \<and> detect_invalid_response (py_strip web_plan) = (True, ''web_search'')
   \<and> sql_agent_node web_env [] (initial_state ''show top customers'' None) =
         (Some web_search_update, [LlmCall (plan_messages ''show top customers'')])
   \<and> needs_clarification
         (apply_update (initial_state ''show top customers'' None) web_search_update)
   \<and> \<not> is_complete
         (apply_update (initial_state ''show top customers'' None) web_search_update)"
  using web_search_plan_suspends
          [of web_plan web_env "[]" "initial_state ''show top customers'' None"]
        web_plan_has_phrase
  by (simp add: web_env_def working_input_def initial_state_def)
section \<open>A query that returns no rows\<close>

lemma sql_execute_rows:
  "db env (length tr) q = DbRows df \<Longrightarrow>
   sql_execute env tr viz plan q =
     (Some (rows_update viz plan q
              (if length df = 0 then result_no_data plan q
               else result_rows plan q (length df) (to_markdown env (take 15 df)))
              (if length df = 0 then None else Some (to_json env df))),
      tr @ [DbQuery q])"
  by (simp add: sql_execute_def rows_update_def Let_def)





section \<open>Routing after an escalation\<close>

text \<open>
  Claim C5, as stated, fails: after the pipeline has returned a pending clarification and
  with no answer supplied, the Orchestrator dispatches the Content responder, which
  drafts the email.
\<close>

theorem responder_dispatched_after_clarification:
  "nodes_run (trace_of (run_graph web_env [] (initial_state mail_request None)))
     = [''supervisor'', ''sql_agent'', ''supervisor'', ''email_writer'']
   \<and> halted_with needs_clarification (run_graph web_env [] (initial_state mail_request None))
   \<and> map_option user_clarification
         (final_state (run_graph web_env [] (initial_state mail_request None))) = Some None
   \<and> map_option email_draft
         (final_state (run_graph web_env [] (initial_state mail_request None)))
       = Some (Some web_plan)"
  using mail_run by simp

lemma supervisor_ignores_clarification:
  "supervisor_node (t\<lparr>needs_clarification := b, clarification_question := cq,
                      clarification_options := co\<rparr>) = supervisor_node t"
  by (rule supervisor_node_cong) simp_all

text \<open>
  Claim C5, amended. Whenever the query pipeline escalates to a clarification, the state
  it returns has \<open>needs_clarification\<close> true, a question and a non-empty list of
  options, and \<open>is_complete\<close> false; with no tabular result in the state, the edge out
  of the pipeline leads back to the Orchestrator and not to Analytics. The decision of
  the Orchestrator does not read the pending clarification, so it goes on with its policy
  and may dispatch the responders that the request still calls for.
\<close>

theorem clarification_returns_to_orchestrator:
  "(sql_agent_node env tr s = (Some u, tr') \<and> u_needs_clarification u = Some True
      \<longrightarrow> needs_clarification (apply_update s u) \<and> \<not> is_complete (apply_update s u)
        \<and> (\<exists>q opts. clarification_question (apply_update s u) = Some q
              \<and> clarification_options (apply_update s u) = Some opts \<and> opts \<noteq> [])
        \<and> (leads_data s = None \<longrightarrow> route_after_sql (apply_update s u) = ''supervisor''))
   \<and> supervisor_node (t\<lparr>needs_clarification := b, clarification_question := cq,
                         clarification_options := co\<rparr>) = supervisor_node t"
proof (intro conjI impI)
  assume a: "sql_agent_node env tr s = (Some u, tr') \<and> u_needs_clarification u = Some True"
  then have "clarifies u \<or> answers u"
    using sql_agent_node_shape by blast
  with a have c: "clarifies u"
    by (auto simp: answers_def)
  from clarifies_applied [OF c, of s]
  show "needs_clarification (apply_update s u)" and "\<not> is_complete (apply_update s u)"
    and "\<exists>q opts. clarification_question (apply_update s u) = Some q
              \<and> clarification_options (apply_update s u) = Some opts \<and> opts \<noteq> []"
    by blast+
  assume "leads_data s = None"
  then show "route_after_sql (apply_update s u) = ''supervisor''"
    by (rule clarifies_applied(4) [OF c])
next
  show "supervisor_node (t\<lparr>needs_clarification := b, clarification_question := cq,
                         clarification_options := co\<rparr>) = supervisor_node t"
    by (rule supervisor_ignores_clarification)
qed

theorem clarification_returns_to_orchestrator_witness:
  "sql_agent_node web_env [] (initial_state mail_request None)
     = (Some web_search_update, [LlmCall (plan_messages mail_request)])
   \<and> u_needs_clarification web_search_update = Some True
   \<and> leads_data (initial_state mail_request None) = None
   \<and> needs_clarification (apply_update (initial_state mail_request None) web_search_update)
   \<and> \<not> is_complete (apply_update (initial_state mail_request None) web_search_update)
   \<and> clarification_options (apply_update (initial_state mail_request None) web_search_update)
       = Some [''Show segment distribution'', ''List top customers'', ''Let me rephrase'']
   \<and> route_after_sql (apply_update (initial_state mail_request None) web_search_update)
       = ''supervisor''"
  using clarification_returns_to_orchestrator
          [where env = web_env and tr = "[]" and s = "initial_state mail_request None"
             and u = web_search_update and tr' = "[LlmCall (plan_messages mail_request)]"]
        web_env_sql_node [of "[]" "initial_state mail_request None"]
  by (simp add: initial_state_def working_input_def web_search_update_def clarify_def
      no_update_def apply_update_def put_def)
section \<open>Pending clarification and completion\<close>

lemma pie_run_halts:
  "\<exists>tr s. run_graph pie_env [] (initial_state pie_request None) = Halted tr s
     \<and> \<not> escalated tr"
  by (simp add: graph_eval pie_flags pie_sql_node pie_dataviz_node finish_def escalated_def)

text \<open>
  Claim C6, as stated, fails: a run whose plan drifts to the web halts in a state in which
  \<open>needs_clarification\<close> and \<open>is_complete\<close> are both true, since the last decision of
  the Orchestrator marks the turn complete.
\<close>

theorem clarification_and_complete_together:
  "nodes_run (trace_of (run_graph web_env [] (initial_state list_request None)))
     = [''supervisor'', ''sql_agent'', ''supervisor'']
   \<and> halted_with needs_clarification (run_graph web_env [] (initial_state list_request None))
   \<and> halted_with is_complete (run_graph web_env [] (initial_state list_request None))"
  by (simp add: list_run halted_with_def)

text \<open>
  Claim C6, amended. Every run that halts, halts in a state in which \<open>is_complete\<close> is
  true, and \<open>needs_clarification\<close> is true in that state exactly when the query pipeline
  escalated in the run, that is, when a dict that the pipeline returned asks for a
  clarification (the pipeline returns at most one dict in a run). So the two flags are
  both true at the end of a run exactly when the pipeline escalated in it, and they are
  not mutually exclusive there. What excludes the two is the dict of the pipeline alone:
  in the state that the pipeline returns they are never both true. The pipeline is the
  only writer of \<open>needs_clarification\<close>: the Orchestrator and the other responders leave
  it as it is (and they are the ones that set \<open>is_complete\<close> afterwards).
\<close>

theorem both_flags_at_halt_iff_escalated:
  "(run_graph env [] (initial_state request answer) = Halted events final
      \<longrightarrow> is_complete final
        \<and> (needs_clarification final \<longleftrightarrow> escalated events)
        \<and> ((needs_clarification final \<and> is_complete final) \<longleftrightarrow> escalated events)
        \<and> length (sql_dicts events) \<le> 1)
   \<and> (sql_agent_node env tr s = (Some u, tr')
      \<longrightarrow> \<not> (needs_clarification (apply_update s u) \<and> is_complete (apply_update s u)))
   \<and> u_needs_clarification (supervisor_node s) = None
   \<and> (n \<noteq> ''sql_agent'' \<and> run_node env tr n s = (Some u', tr'')
      \<longrightarrow> u_needs_clarification u' = None
        \<and> needs_clarification (apply_update s u') = needs_clarification s)"
proof (intro conjI impI)
  assume h: "run_graph env [] (initial_state request answer) = Halted events final"
  show c: "is_complete final"
    using h by (rule halted_complete)
  show one: "length (sql_dicts events) \<le> 1"
    using h by (rule halted_sql_dicts)
  have "needs_clarification final \<longleftrightarrow> last_asks (sql_dicts events)"
    using clarification_log [OF h] by simp
  then show e: "needs_clarification final \<longleftrightarrow> escalated events"
    using last_asks_single [OF one] by (simp add: escalated_def)
  show "(needs_clarification final \<and> is_complete final) \<longleftrightarrow> escalated events"
    using c e by simp
next
  assume "sql_agent_node env tr s = (Some u, tr')"
  then have "clarifies u \<or> answers u"
    by (rule sql_agent_node_shape)
  then show "\<not> (needs_clarification (apply_update s u) \<and> is_complete (apply_update s u))"
    using clarifies_applied(2) answers_applied by blast
next
  show "u_needs_clarification (supervisor_node s) = None"
    by (rule supervisor_keeps_clarification)
next
  assume a: "n \<noteq> ''sql_agent'' \<and> run_node env tr n s = (Some u', tr'')"
  then show "u_needs_clarification u' = None"
    using other_nodes_keep_clarification by blast
  then show "needs_clarification (apply_update s u') = needs_clarification s"
    by (simp add: apply_update_def put_def)
qed

theorem both_flags_at_halt_iff_escalated_witness:
  "(\<exists>tr s. run_graph web_env [] (initial_state list_request None) = Halted tr s
      \<and> sql_dicts tr = [web_search_update] \<and> escalated tr
      \<and> needs_clarification s \<and> is_complete s)
   \<and> (\<exists>tr s. run_graph pie_env [] (initial_state pie_request None) = Halted tr s
      \<and> \<not> escalated tr \<and> \<not> needs_clarification s \<and> is_complete s)
   \<and> sql_agent_node web_env [] (initial_state list_request None)
     = (Some web_search_update, [LlmCall (plan_messages list_request)])
   \<and> needs_clarification (apply_update (initial_state list_request None) web_search_update)
   \<and> \<not> is_complete (apply_update (initial_state list_request None) web_search_update)
   \<and> ''dataviz_agent'' \<noteq> ''sql_agent''
   \<and> run_node web_env [] ''dataviz_agent'' (initial_state list_request None)
       = (Some (finish msg_no_data), [NodeRun ''dataviz_agent''])
   \<and> u_needs_clarification (finish msg_no_data) = None"
proof -
  obtain tr s
    where w: "run_graph web_env [] (initial_state list_request None) = Halted tr s"
      and d: "sql_dicts tr = [web_search_update]"
    using list_run by simp
  have we: "escalated tr"
    using d by (simp add: escalated_def web_search_update_def clarify_def)
  obtain tr' s'
    where p: "run_graph pie_env [] (initial_state pie_request None) = Halted tr' s'"
      and pe: "\<not> escalated tr'"
    using pie_run_halts by blast
  have nodes: "sql_agent_node web_env [] (initial_state list_request None)
       = (Some web_search_update, [LlmCall (plan_messages list_request)])
     \<and> run_node web_env [] ''dataviz_agent'' (initial_state list_request None)
       = (Some (finish msg_no_data), [NodeRun ''dataviz_agent''])"
    using web_env_sql_node [of "[]" "initial_state list_request None"]
    by (simp add: run_node_def dataviz_agent_node_def initial_state_def working_input_def)
  from both_flags_at_halt_iff_escalated
         [where env = web_env and request = list_request and answer = None and events = tr
            and final = s and tr = "[]" and s = "initial_state list_request None"
            and u = web_search_update and tr' = "[LlmCall (plan_messages list_request)]"
            and n = "''dataviz_agent''" and u' = "finish msg_no_data"
            and tr'' = "[NodeRun ''dataviz_agent'']"]
       both_flags_at_halt_iff_escalated
         [where env = pie_env and request = pie_request and answer = None and events = tr'
            and final = s']
       w d we p pe nodes
  show ?thesis
    by (simp add: web_search_update_def clarify_def no_update_def apply_update_def put_def
        initial_state_def)
qed
section \<open>Resuming after a clarification\<close>

text \<open>
  Claim C4, as stated, fails in its last part: the turn that was suspended ended with a
  log of two entries, the request and the clarification message of the pipeline, and the
  state in which the resumption starts holds the request alone, with the counter and
  \<open>completed_agents\<close> of a new turn.
\<close>

theorem resumed_log_starts_afresh:
  "halted_with needs_clarification (run_graph web_env [] (initial_state list_request None))
   \<and> map_option messages (final_state (run_graph web_env [] (initial_state list_request None)))
       = Some [HumanMessage list_request, AIMessage msg_web_search]
   \<and> map_option clarification_options
         (final_state (run_graph web_env [] (initial_state list_request None)))
       = Some (Some [first_option, ''List top customers'', ''Let me rephrase''])
   \<and> messages (initial_state list_request (Some first_option)) = [HumanMessage list_request]
   \<and> current_step (initial_state list_request (Some first_option)) = 0
   \<and> completed_agents (initial_state list_request (Some first_option)) = []"
  by (simp add: list_run halted_with_def first_option_def) (simp add: initial_state_def)

text \<open>
  Claim C4, amended. Resuming with a non-empty clarification answer starts the graph
  from a fresh state whose log holds the original request alone; the working input of
  the pipeline is the original request followed by the annotation
  \<open>(User clarified: answer)\<close>, and in the resumed run every run of the pipeline node
  enters stage 1 with that input. The original request is not discarded.
\<close>

theorem resume_enters_plan_with_annotation:
  "answer \<noteq> [] \<longrightarrow>
     messages (initial_state request (Some answer)) = [HumanMessage request]
     \<and> working_input (initial_state request (Some answer))
         = request @ '' (User clarified: '' @ answer @ '')''
     \<and> stage1_calls (trace_of (run_graph env [] (initial_state request (Some answer))))
         = replicate (sql_runs (trace_of (run_graph env [] (initial_state request (Some answer)))))
             (plan_messages (request @ '' (User clarified: '' @ answer @ '')''))"
proof (intro impI conjI)
  let ?s = "initial_state request (Some answer)"
  let ?w = "request @ '' (User clarified: '' @ answer @ '')''"
  assume a: "answer \<noteq> []"
  show "messages ?s = [HumanMessage request]"
    by (simp add: initial_state_def)
  show w: "working_input ?s = ?w"
    using a by (simp add: working_input_def initial_state_def clarified_def)
  have "asks ?w ?s"
    using w by (simp add: asks_def) (simp add: initial_state_def)
  from run_graph_stage1_calls [OF this, of env "[]"]
  show "stage1_calls (trace_of (run_graph env [] ?s))
         = replicate (sql_runs (trace_of (run_graph env [] ?s))) (plan_messages ?w)"
    by (auto simp: sql_runs_def)
qed

theorem resume_enters_plan_with_annotation_witness:
  "first_option \<noteq> []
   \<and> working_input (initial_state list_request (Some first_option))
       = list_request @ '' (User clarified: '' @ first_option @ '')''
   \<and> sql_runs (trace_of (run_graph web_env [] (initial_state list_request (Some first_option))))
       = 1
   \<and> stage1_calls
         (trace_of (run_graph web_env [] (initial_state list_request (Some first_option))))
       = [plan_messages (list_request @ '' (User clarified: '' @ first_option @ '')'')]"
proof -
  have n: "first_option \<noteq> []"
    by (simp add: first_option_def)
  have r: "sql_runs (trace_of (run_graph web_env [] (initial_state list_request (Some first_option))))
      = 1"
    by (simp add: resumed_run sql_runs_def)
  from resume_enters_plan_with_annotation [of first_option list_request web_env] n r
  show ?thesis by simp
qed
section \<open>Validation of the query text\<close>

lemma validate_sql_with_occurs:
  "validate_sql_with up lo sql =
     (if occurs ''WITH '' (up sql) \<and> occurs '' AS '' (up sql) then (False, err_cte)
      else if occurs_twice ''SELECT'' (up sql) then (False, err_subquery)
      else if occurs ''JOIN'' (up sql) then (False, err_join)
      else if \<not> occurs ''leadscored'' (lo sql) then (False, err_table)
      else (True, []))"
proof -
  have "1 < py_count (up sql) ''SELECT'' \<longleftrightarrow> occurs_twice ''SELECT'' (up sql)"
    by (rule py_count_twice) simp
  then show ?thesis
    by (simp add: validate_sql_with_def Let_def py_in_occurs)
qed

lemma validation_examples:
  "validate_sql cte_example = (False, err_cte)"
  "validate_sql nested_example = (False, err_subquery)"
  "validate_sql join_example = (False, err_join)"
  "validate_sql good_example = (True, [])"
  "distinct [err_cte, err_subquery, err_join, err_table, []]"
  "ascii cte_example" "ascii nested_example" "ascii join_example" "ascii good_example"
  by code_simp+

lemma validation_failure_executes_nothing:
  assumes "\<not> fst (detect_invalid_response t)" and "\<not> fst (validate_sql (extract_sql t))"
  shows "sql_after_generate env tr v plan t =
           (Some (validation_update v plan (extract_sql t) (snd (validate_sql (extract_sql t)))),
            tr)"
  using assms by (simp add: sql_after_generate_def validation_update_def Let_def)

lemma validation_success_executes:
  assumes "\<not> fst (detect_invalid_response t)" and "fst (validate_sql (extract_sql t))"
  shows "sql_after_generate env tr v plan t = sql_execute env tr v plan (extract_sql t)"
  using assms by (simp add: sql_after_generate_def Let_def)

lemma cte_query_facts:
  "has_keyword ''WITH'' cte_query" "has_keyword ''AS'' cte_query"
  "keyword_reading_rejects cte_query"
  "validate_sql cte_query = (True, [])"
  "\<not> fst (detect_invalid_response cte_query)"
  "extract_sql cte_query = cte_query"
  by code_simp+

text \<open>
  The tests also reject a query for a substring that is no keyword: the name of a city
  holds the letters of \<open>JOIN\<close>.
\<close>

lemma city_query_facts:
  "\<not> keyword_reading_rejects city_query"
  "validate_sql city_query = (False, err_join)"
  by code_simp+

text \<open>
  Claim C1, as stated, fails: a query that contains a \<open>WITH\<close> clause combined with
  \<open>AS\<close> passes validation and is executed when no space follows \<open>AS\<close>; the tests of
  the code are for the texts \<open>WITH\<close> followed by a space and \<open>AS\<close> between spaces.
\<close>

theorem cte_without_space_is_accepted:
  "has_keyword ''WITH'' cte_query \<and> has_keyword ''AS'' cte_query
   \<and> keyword_reading_rejects cte_query
   \<and> validate_sql cte_query = (True, [])
   \<and> sql_after_generate quiet_env [] False ''plan'' cte_query
       = (Some (rows_update False ''plan'' cte_query (result_no_data ''plan'' cte_query) None),
          [DbQuery cte_query])"
proof -
  have "sql_after_generate quiet_env [] False ''plan'' cte_query
      = sql_execute quiet_env [] False ''plan'' cte_query"
    using validation_success_executes [of cte_query quiet_env "[]" False "''plan''"]
    by (simp add: cte_query_facts)
  also have "\<dots> = (Some (rows_update False ''plan'' cte_query
                            (result_no_data ''plan'' cte_query) None), [DbQuery cte_query])"
    using sql_execute_rows [of quiet_env "[]" cte_query "[]" False "''plan''"]
    by (simp add: quiet_env_def)
  finally show ?thesis
    by (simp add: cte_query_facts)
qed

text \<open>
  Claim C1, amended. The Validate stage rejects a query exactly when its text in upper
  case contains \<open>WITH\<close> followed by a space together with \<open>AS\<close> between spaces, or
  contains \<open>SELECT\<close> twice, or contains \<open>JOIN\<close>, or when its text in lower case does
  not contain \<open>leadscored\<close>; these are tests for substrings, not for SQL keywords. The
  message names the first rule violated, in this order, and the four messages differ.
  This holds for every text, whatever the two case mappings \<open>up\<close> and \<open>lo\<close> are, so for
  \<open>str.upper\<close> and \<open>str.lower\<close>; for a text of ASCII characters they are \<open>py_upper\<close>
  and \<open>py_lower\<close>. The three queries of the specification are rejected and the fourth is
  accepted. A response of ASCII characters whose query fails validation gives the
  validation dict and adds no event to the log (nothing is executed); one whose query
  passes is executed.
\<close>

theorem validate_sql_rejects_iff:
  "(\<not> fst (validate_sql_with up lo sql) \<longleftrightarrow>
       (occurs ''WITH '' (up sql) \<and> occurs '' AS '' (up sql))
       \<or> occurs_twice ''SELECT'' (up sql)
       \<or> occurs ''JOIN'' (up sql)
       \<or> \<not> occurs ''leadscored'' (lo sql))
   \<and> snd (validate_sql_with up lo sql) =
       (if occurs ''WITH '' (up sql) \<and> occurs '' AS '' (up sql) then err_cte
        else if occurs_twice ''SELECT'' (up sql) then err_subquery
        else if occurs ''JOIN'' (up sql) then err_join
        else if \<not> occurs ''leadscored'' (lo sql) then err_table
        else [])
   \<and> (ascii sql \<longrightarrow>
        (\<not> fst (validate_sql sql) \<longleftrightarrow>
           (occurs ''WITH '' (py_upper sql) \<and> occurs '' AS '' (py_upper sql))
           \<or> occurs_twice ''SELECT'' (py_upper sql)
           \<or> occurs ''JOIN'' (py_upper sql)
           \<or> \<not> occurs ''leadscored'' (py_lower sql))
        \<and> snd (validate_sql sql) =
           (if occurs ''WITH '' (py_upper sql) \<and> occurs '' AS '' (py_upper sql) then err_cte
            else if occurs_twice ''SELECT'' (py_upper sql) then err_subquery
            else if occurs ''JOIN'' (py_upper sql) then err_join
            else if \<not> occurs ''leadscored'' (py_lower sql) then err_table
            else []))
   \<and> distinct [err_cte, err_subquery, err_join, err_table, []]
   \<and> ascii cte_example \<and> validate_sql cte_example = (False, err_cte)
   \<and> ascii nested_example \<and> validate_sql nested_example = (False, err_subquery)
   \<and> ascii join_example \<and> validate_sql join_example = (False, err_join)
   \<and> ascii good_example \<and> validate_sql good_example = (True, [])
   \<and> (ascii t \<and> \<not> fst (detect_invalid_response t)
        \<and> \<not> fst (validate_sql (extract_sql t))
        \<longrightarrow> sql_after_generate env tr v plan t =
              (Some (validation_update v plan (extract_sql t)
                       (snd (validate_sql (extract_sql t)))), tr))
   \<and> (ascii t \<and> \<not> fst (detect_invalid_response t) \<and> fst (validate_sql (extract_sql t))
        \<longrightarrow> sql_after_generate env tr v plan t = sql_execute env tr v plan (extract_sql t))"
proof (intro conjI impI)
  show "\<not> fst (validate_sql_with up lo sql) \<longleftrightarrow>
       (occurs ''WITH '' (up sql) \<and> occurs '' AS '' (up sql))
       \<or> occurs_twice ''SELECT'' (up sql)
       \<or> occurs ''JOIN'' (up sql)
       \<or> \<not> occurs ''leadscored'' (lo sql)"
    by (simp add: validate_sql_with_occurs)
  show "snd (validate_sql_with up lo sql) =
       (if occurs ''WITH '' (up sql) \<and> occurs '' AS '' (up sql) then err_cte
        else if occurs_twice ''SELECT'' (up sql) then err_subquery
        else if occurs ''JOIN'' (up sql) then err_join
        else if \<not> occurs ''leadscored'' (lo sql) then err_table
        else [])"
    by (simp add: validate_sql_with_occurs)
  show "\<not> fst (validate_sql sql) \<longleftrightarrow>
       (occurs ''WITH '' (py_upper sql) \<and> occurs '' AS '' (py_upper sql))
       \<or> occurs_twice ''SELECT'' (py_upper sql)
       \<or> occurs ''JOIN'' (py_upper sql)
       \<or> \<not> occurs ''leadscored'' (py_lower sql)"
    by (simp add: validate_sql_def validate_sql_with_occurs)
  show "snd (validate_sql sql) =
       (if occurs ''WITH '' (py_upper sql) \<and> occurs '' AS '' (py_upper sql) then err_cte
        else if occurs_twice ''SELECT'' (py_upper sql) then err_subquery
        else if occurs ''JOIN'' (py_upper sql) then err_join
        else if \<not> occurs ''leadscored'' (py_lower sql) then err_table
        else [])"
    by (simp add: validate_sql_def validate_sql_with_occurs)
  show "distinct [err_cte, err_subquery, err_join, err_table, []]"
    and "validate_sql cte_example = (False, err_cte)"
    and "validate_sql nested_example = (False, err_subquery)"
    and "validate_sql join_example = (False, err_join)"
    and "validate_sql good_example = (True, [])"
    and "ascii cte_example" and "ascii nested_example" and "ascii join_example"
    and "ascii good_example"
    by (rule validation_examples)+
next
  assume "ascii t \<and> \<not> fst (detect_invalid_response t)
        \<and> \<not> fst (validate_sql (extract_sql t))"
  then show "sql_after_generate env tr v plan t =
              (Some (validation_update v plan (extract_sql t)
                       (snd (validate_sql (extract_sql t)))), tr)"
    using validation_failure_executes_nothing by blast
next
  assume "ascii t \<and> \<not> fst (detect_invalid_response t) \<and> fst (validate_sql (extract_sql t))"
  then show "sql_after_generate env tr v plan t = sql_execute env tr v plan (extract_sql t)"
    using validation_success_executes by blast
qed

lemma join_example_facts:
  "\<not> fst (detect_invalid_response join_example)"
  "extract_sql join_example = join_example @ '';''"
  "validate_sql (join_example @ '';'') = (False, err_join)"
  "\<not> fst (detect_invalid_response good_example)"
  "extract_sql good_example = good_example @ '';''"
  "validate_sql (good_example @ '';'') = (True, [])"
  by code_simp+

theorem validate_sql_rejects_iff_witness:
  "ascii join_example
   \<and> \<not> fst (validate_sql join_example) \<and> snd (validate_sql join_example) = err_join
   \<and> occurs ''JOIN'' (py_upper join_example)
   \<and> \<not> fst (detect_invalid_response join_example)
   \<and> \<not> fst (validate_sql (extract_sql join_example))
   \<and> sql_after_generate quiet_env [] False ''plan'' join_example
       = (Some (validation_update False ''plan'' (join_example @ '';'') err_join), [])
   \<and> ascii good_example
   \<and> \<not> fst (detect_invalid_response good_example)
   \<and> fst (validate_sql (extract_sql good_example))
   \<and> sql_after_generate quiet_env [] False ''plan'' good_example
       = sql_execute quiet_env [] False ''plan'' (good_example @ '';'')"
proof -
  have j: "occurs ''JOIN'' (py_upper join_example)"
    by (simp add: py_in_occurs [symmetric]) code_simp
  from validate_sql_rejects_iff [where sql = join_example and t = join_example
          and env = quiet_env and tr = "[]" and v = False and plan = "''plan''"]
       validate_sql_rejects_iff [where t = good_example and env = quiet_env and tr = "[]"
          and v = False and plan = "''plan''"]
       j
  show ?thesis
    by (simp add: join_example_facts)
qed

end
